theory Spec2Isabelle
  imports Main "HOL-Library.Word" "HOL-Library.Signed_Division"
begin

section \<open>The credential updater of pkg/credentials/provider/updater.go\<close>

text \<open>
  This theory embeds the Go type \<^verbatim>\<open>Updater\<close> and its methods as HOL functions
  over an explicit world: a store of credential objects, the wall clock, the number of
  invocations of the fetch capability and the trace of observable events (fetches,
  sleeps, log lines).  A Go panic is a value of the result type.
\<close>

subsection \<open>Go's time package: Duration and Time\<close>

text \<open>
  \<^verbatim>\<open>time.Duration\<close> is an int64 count of nanoseconds: a 64-bit word read with
  \<open>sint\<close>; \<open>+\<close>, \<open>-\<close> and \<open>*\<close> wrap as in Go.  Go's \<^verbatim>\<open>/\<close> truncates toward zero.
\<close>

type_synonym Duration = "64 word"

definition Duration_div :: "Duration \<Rightarrow> Duration \<Rightarrow> Duration" where
  "Duration_div a b = word_of_int (sint a sdiv sint b)"

definition Second :: Duration where
  "Second = 1000000000"

text \<open>
  A \<^verbatim>\<open>time.Time\<close> is a wall-clock instant, here the nanoseconds since the zero Time
  (January 1, year 1, 00:00:00 UTC), and an optional monotonic clock reading in
  nanoseconds.  The location is left out: no operation used here reads it.  Wall
  instants are unbounded integers: the range of \<^verbatim>\<open>time.Time\<close> (64-bit seconds) is far
  wider than what int64 nanosecond Durations can reach from a real instant.
\<close>

record Time =
  wall :: int
  mono :: "int option"

text \<open>\<^verbatim>\<open>time.Time{}\<close>, the zero Time.\<close>

definition Time_zero :: Time where
  "Time_zero = \<lparr>wall = 0, mono = None\<rparr>"

text \<open>
  \<^verbatim>\<open>t.Round(d)\<close>: for \<^verbatim>\<open>d <= 0\<close> it returns \<open>t\<close> stripped of its monotonic clock reading
  and otherwise unchanged; for \<^verbatim>\<open>d > 0\<close> it rounds the wall instant to the nearest
  multiple of \<open>d\<close> since the zero Time, halfway values rounding up, and strips the
  monotonic reading as well.
\<close>

definition Time_Round :: "Time \<Rightarrow> Duration \<Rightarrow> Time" where
  "Time_Round t d =
     (if sint d \<le> 0 then t\<lparr>mono := None\<rparr>
      else let r = wall t mod sint d in
        if r + r < sint d then \<lparr>wall = wall t - r, mono = None\<rparr>
        else \<lparr>wall = wall t + (sint d - r), mono = None\<rparr>)"

text \<open>
  \<^verbatim>\<open>t.Add(d)\<close> moves the wall instant by \<open>d\<close>; a monotonic reading moves with it and is
  dropped when it leaves the int64 range.
\<close>

definition Time_Add :: "Time \<Rightarrow> Duration \<Rightarrow> Time" where
  "Time_Add t d =
     (case mono t of
        None \<Rightarrow> t\<lparr>wall := wall t + sint d\<rparr>
      | Some m \<Rightarrow>
          (let te = m + sint d in
           if te < - (2 ^ 63) \<or> 2 ^ 63 \<le> te
           then \<lparr>wall = wall t + sint d, mono = None\<rparr>
           else \<lparr>wall = wall t + sint d, mono = Some te\<rparr>))"

text \<open>
  \<^verbatim>\<open>t.Before(u)\<close> compares the monotonic readings when both Times have one and the
  wall instants otherwise.  It is strict.
\<close>

definition Time_Before :: "Time \<Rightarrow> Time \<Rightarrow> bool" where
  "Time_Before t u =
     (case (mono t, mono u) of
        (Some a, Some b) \<Rightarrow> a < b
      | _ \<Rightarrow> wall t < wall u)"

subsection \<open>Credentials, errors, the store\<close>

text \<open>
  Modelled from the spec: the struct \<^verbatim>\<open>Credentials\<close> is declared outside the files at
  hand.  The spec gives its fields: access key id, access key secret, an optional
  security token and the expiration timestamp.
\<close>

record Credentials =
  AccessKeyId :: string
  AccessKeySecret :: string
  SecurityToken :: string
  Expiration :: Time

text \<open>
  Modelled from the spec: \<^verbatim>\<open>DeepCopy\<close> is declared outside the files at hand.  The
  spec calls its result a defensive copy of the value: a new value with the same fields.
\<close>

definition DeepCopy :: "Credentials \<Rightarrow> Credentials" where
  "DeepCopy c =
     \<lparr>AccessKeyId = AccessKeyId c, AccessKeySecret = AccessKeySecret c,
      SecurityToken = SecurityToken c, Expiration = Expiration c\<rparr>"

text \<open>
  Modelled from the spec: the error type \<^verbatim>\<open>NotEnableError\<close> is declared outside the
  files at hand.  The spec has two kinds of fetch error: the terminal "feature not
  enabled" kind, which the type assertion \<^verbatim>\<open>err.(*NotEnableError)\<close> recognises, and
  every other error.
\<close>

datatype error = NotEnableError string | OtherError string

fun is_NotEnableError :: "error \<Rightarrow> bool" where
  "is_NotEnableError (NotEnableError _) = True"
| "is_NotEnableError (OtherError _) = False"

text \<open>
  Objects of type \<^verbatim>\<open>Credentials\<close> live in a store.  An address is either one the
  Updater's own code allocated (\<^verbatim>\<open>&cred\<close> of a local variable, which escapes to the
  heap) or one of the objects the fetch capability hands out.  A Go pointer is an
  address or nil (\<open>None\<close>); a non-nil pointer always points to an object.
\<close>

datatype addr = Own nat | Ext nat

datatype logger = UserLogger nat | defaultLog

datatype message =
    StartRefresh Time
  | Refreshed Time
  | RefreshFailed error

datatype event =
    EvFetch nat bool
  | EvSleep Duration
  | EvDebug logger message
  | EvError logger error message

text \<open>
  \<open>EvFetch n c\<close>: the fetch capability was invoked for the \<open>n\<close>-th time (counting from
  0) and the context passed to it was already cancelled (\<open>c\<close>) or not.  A log event
  carries the logger and what the line is about, not its formatted text.

  The world: the store, the next unused address of the Updater's own allocations, the
  clock, the number of invocations of the fetch capability so far, and the trace.
\<close>

record world =
  heap :: "addr \<Rightarrow> Credentials"
  nxt :: nat
  clock :: Time
  calls :: nat
  trace :: "event list"

text \<open>A context is never cancelled, or cancelled at a wall instant.\<close>

datatype Context = Background | CancelAt int

fun ctx_Done :: "Context \<Rightarrow> world \<Rightarrow> bool" where
  "ctx_Done Background w = False"
| "ctx_Done (CancelAt t) w = (t \<le> wall (clock w))"

text \<open>
  The fetch capability \<^verbatim>\<open>func(ctx) (*Credentials, error)\<close> is any deterministic
  behaviour of the environment: its result depends on whether the context it receives
  is already cancelled and on how many times it has been invoked before.  It returns a
  pointer to one of its own objects (or nil) and an error (or nil).
\<close>

type_synonym getCredentialsFunc = "bool \<Rightarrow> nat \<Rightarrow> nat option \<times> error option"

datatype panic = NilFunc | NilDeref | NonPositiveInterval

subsection \<open>The Updater\<close>

record Updater =
  expiryWindow :: Duration
  refreshPeriod :: Duration
  expiryWindowForRefreshLoop :: Duration
  getCredentials :: "getCredentialsFunc option"
  cred :: "addr option"
  Logger :: "logger option"
  nowFunc :: "(Time \<Rightarrow> Time) option"

record UpdaterOptions =
  ExpiryWindow :: Duration
  RefreshPeriod :: Duration
  OptLogger :: "logger option"

text \<open>
  \<^verbatim>\<open>time.Now()\<close> reads the clock of the world.  The field \<^verbatim>\<open>nowFunc\<close> is nil or a clock
  function; an injected clock is a function of the reading of the real one (the real
  clock itself, a frozen clock, a shifted clock).  \<^verbatim>\<open>NewUpdater\<close> installs \<^verbatim>\<open>time.Now\<close>.
\<close>

definition time_Now :: "world \<Rightarrow> Time" where
  "time_Now w = clock w"

text \<open>\<^verbatim>\<open>time.Sleep(d)\<close> returns at once for \<^verbatim>\<open>d <= 0\<close>; otherwise the clock moves by \<open>d\<close>.\<close>

definition time_Sleep :: "Duration \<Rightarrow> world \<Rightarrow> world" where
  "time_Sleep d w =
     w\<lparr>clock := (if 0 <s d
                  then \<lparr>wall = wall (clock w) + sint d,
                        mono = map_option (\<lambda>m. m + sint d) (mono (clock w))\<rparr>
                  else clock w),
       trace := trace w @ [EvSleep d]\<rparr>"

definition NewUpdater :: "getCredentialsFunc option \<Rightarrow> UpdaterOptions \<Rightarrow> Updater" where
  "NewUpdater getter opts =
     \<lparr>expiryWindow = ExpiryWindow opts,
      refreshPeriod = RefreshPeriod opts,
      expiryWindowForRefreshLoop =
        RefreshPeriod opts + Duration_div (RefreshPeriod opts) 2,
      getCredentials = getter,
      cred = None,
      Logger = OptLogger opts,
      nowFunc = Some (\<lambda>t. t)\<rparr>"

definition now :: "Updater \<Rightarrow> world \<Rightarrow> Time" where
  "now u w = (case nowFunc u of None \<Rightarrow> time_Now w | Some f \<Rightarrow> f (time_Now w))"

definition logger_of :: "Updater \<Rightarrow> logger" where
  "logger_of u = (case Logger u of Some l \<Rightarrow> l | None \<Rightarrow> defaultLog)"

definition getCred :: "Updater \<Rightarrow> addr option" where
  "getCred u = cred u"

definition expiration :: "Updater \<Rightarrow> world \<Rightarrow> Time" where
  "expiration u w =
     (case getCred u of
        None \<Rightarrow> Time_zero
      | Some a \<Rightarrow> Time_Round (Expiration (heap w a)) 0)"

definition expired :: "Updater \<Rightarrow> Duration \<Rightarrow> world \<Rightarrow> bool" where
  "expired u expiryDelta w =
     (let exp = expiration u w
      in Time_Before (Time_Add exp (- expiryDelta)) (now u w))"

definition Expired :: "Updater \<Rightarrow> world \<Rightarrow> bool" where
  "Expired u w = expired u 0 w"

text \<open>
  \<^verbatim>\<open>setCred\<close> receives the struct by value, replaces it by its copy, normalises and
  shifts the expiration, and stores the address of that local variable: a new object.
\<close>

definition setCred :: "Updater \<Rightarrow> Credentials \<Rightarrow> world \<Rightarrow> Updater \<times> world" where
  "setCred u c w =
     (let c1 = DeepCopy c;
          c2 = c1\<lparr>Expiration := Time_Round (Expiration c1) 0\<rparr>;
          c3 = (if 0 <s expiryWindow u
                then c2\<lparr>Expiration := Time_Add (Expiration c2) (- expiryWindow u)\<rparr>
                else c2);
          a = Own (nxt w)
      in (u\<lparr>cred := Some a\<rparr>, w\<lparr>heap := (heap w)(a := c3), nxt := Suc (nxt w)\<rparr>))"

definition log_Debug :: "Updater \<Rightarrow> message \<Rightarrow> world \<Rightarrow> world" where
  "log_Debug u m w = w\<lparr>trace := trace w @ [EvDebug (logger_of u) m]\<rparr>"

definition log_Error :: "Updater \<Rightarrow> error \<Rightarrow> message \<Rightarrow> world \<Rightarrow> world" where
  "log_Error u e m w = w\<lparr>trace := trace w @ [EvError (logger_of u) e m]\<rparr>"

text \<open>
  \<^verbatim>\<open>refreshCred\<close>: one invocation of the fetch capability.  Calling a nil function
  value panics; so does reading \<^verbatim>\<open>cred.Expiration\<close> when the capability returned
  \<^verbatim>\<open>(nil, nil)\<close>.  The result is the returned error (or nil).
\<close>

definition refreshCred ::
  "Updater \<Rightarrow> Context \<Rightarrow> world \<Rightarrow> (panic \<times> world) + (error option \<times> Updater \<times> world)" where
  "refreshCred u ctx w =
     (case getCredentials u of
        None \<Rightarrow> Inl (NilFunc, w)
      | Some g \<Rightarrow>
          (let (p, err) = g (ctx_Done ctx w) (calls w);
               w1 = w\<lparr>calls := Suc (calls w),
                      trace := trace w @ [EvFetch (calls w) (ctx_Done ctx w)]\<rparr>
           in case err of
                Some e \<Rightarrow>
                  if is_NotEnableError e then Inr (Some e, u, w1)
                  else Inr (Some e, u, log_Error u e (RefreshFailed e) w1)
              | None \<Rightarrow>
                  (case p of
                     None \<Rightarrow> Inl (NilDeref, w1)
                   | Some k \<Rightarrow>
                       (let c = heap w1 (Ext k);
                            w2 = log_Debug u (Refreshed (Expiration c)) w1;
                            (u', w3) = setCred u c w2
                        in Inr (None, u', w3)))))"

text \<open>
  \<^verbatim>\<open>Credentials(ctx)\<close> returns a pointer and an error.  Its last two statements,
  \<^verbatim>\<open>cred := u.getCred().DeepCopy(); return &cred, nil\<close>, are \<open>copy_out\<close>: the copy is a
  new local variable whose address is taken; \<^verbatim>\<open>DeepCopy\<close> on a nil pointer panics.
\<close>

definition copy_out ::
  "Updater \<Rightarrow> world \<Rightarrow> (panic \<times> world) + ((addr option \<times> error option) \<times> Updater \<times> world)" where
  "copy_out u w =
     (case getCred u of
        None \<Rightarrow> Inl (NilDeref, w)
      | Some a \<Rightarrow>
          (let c = DeepCopy (heap w a); r = Own (nxt w)
           in Inr ((Some r, None), u, w\<lparr>heap := (heap w)(r := c), nxt := Suc (nxt w)\<rparr>)))"

definition Updater_Credentials ::
  "Updater \<Rightarrow> Context \<Rightarrow> world \<Rightarrow>
     (panic \<times> world) + ((addr option \<times> error option) \<times> Updater \<times> world)" where
  "Updater_Credentials u ctx w =
     (if Expired u w then
        (case refreshCred u ctx w of
           Inl pw \<Rightarrow> Inl pw
         | Inr (Some e, u', w') \<Rightarrow> Inr ((None, Some e), u', w')
         | Inr (None, u', w') \<Rightarrow> copy_out u' w')
      else copy_out u w)"

text \<open>
  The retry loop of \<^verbatim>\<open>refreshCredForLoop\<close>, from loop index \<open>i\<close> on:
  \<^verbatim>\<open>for i := 0; i < maxRetry; i++\<close>.
\<close>

definition maxRetry :: nat where
  "maxRetry = 5"

function retry_loop ::
  "Updater \<Rightarrow> Context \<Rightarrow> nat \<Rightarrow> world \<Rightarrow> (panic \<times> world) + (unit \<times> Updater \<times> world)" where
  "retry_loop u ctx i w =
     (if i < maxRetry then
        (case refreshCred u ctx w of
           Inl pw \<Rightarrow> Inl pw
         | Inr (None, u', w') \<Rightarrow> Inr ((), u', w')
         | Inr (Some e, u', w') \<Rightarrow>
             if is_NotEnableError e then Inr ((), u', w')
             else retry_loop u' ctx (Suc i)
                    (if i < maxRetry - 1 then time_Sleep (Second * of_nat i) w' else w'))
      else Inr ((), u, w))"
  by pat_completeness auto
termination
  by (relation "measure (\<lambda>(u, ctx, i, w). maxRetry - i)") auto

declare retry_loop.simps [simp del]

definition refreshCredForLoop ::
  "Updater \<Rightarrow> Context \<Rightarrow> world \<Rightarrow> (panic \<times> world) + (unit \<times> Updater \<times> world)" where
  "refreshCredForLoop u ctx w =
     (let exp = expiration u w in
      if \<not> expired u (expiryWindowForRefreshLoop u) w then Inr ((), u, w)
      else retry_loop u ctx 0 (log_Debug u (StartRefresh exp) w))"

text \<open>
  The background task.  \<^verbatim>\<open>time.NewTicker\<close> panics on a non-positive interval.  The
  ticker and the scheduler are the environment: \<open>ticks\<close> lists the wall instants at
  which the successive values of \<^verbatim>\<open>ticket.C\<close> become receivable, and \<open>pick\<close> decides
  the \<^verbatim>\<open>select\<close> statements that find both channels ready (Go chooses one of them at
  random).  A \<^verbatim>\<open>select\<close> with no channel ready blocks until the first of them is.  When
  the ticks listed are used up and the context is not cancelled, the task is still
  blocked in its \<^verbatim>\<open>select\<close>: the result \<open>Waiting\<close>.
\<close>

datatype loop_status = NotStarted | Exited | Waiting

definition wait_until :: "int \<Rightarrow> world \<Rightarrow> world" where
  "wait_until t w =
     (if wall (clock w) < t
      then w\<lparr>clock := \<lparr>wall = t,
                        mono = map_option (\<lambda>m. m + (t - wall (clock w))) (mono (clock w))\<rparr>\<rparr>
      else w)"

fun select_loop ::
  "(nat \<Rightarrow> bool) \<Rightarrow> Updater \<Rightarrow> Context \<Rightarrow> int list \<Rightarrow> world \<Rightarrow>
     (panic \<times> world) + (loop_status \<times> Updater \<times> world)" where
  "select_loop pick u ctx [] w =
     (if ctx_Done ctx w then Inr (Exited, u, w) else Inr (Waiting, u, w))"
| "select_loop pick u ctx (T # ts) w =
     (let w1 = wait_until (case ctx of Background \<Rightarrow> T | CancelAt d \<Rightarrow> min d T) w
      in if ctx_Done ctx w1 \<and> (wall (clock w1) < T \<or> pick (length ts))
         then Inr (Exited, u, w1)
         else (case refreshCredForLoop u ctx w1 of
                 Inl pw \<Rightarrow> Inl pw
               | Inr (_, u', w') \<Rightarrow> select_loop pick u' ctx ts w'))"

definition startRefreshLoop ::
  "(nat \<Rightarrow> bool) \<Rightarrow> Updater \<Rightarrow> Context \<Rightarrow> int list \<Rightarrow> world \<Rightarrow>
     (panic \<times> world) + (loop_status \<times> Updater \<times> world)" where
  "startRefreshLoop pick u ctx ticks w =
     (if refreshPeriod u \<le>s 0 then Inl (NonPositiveInterval, w)
      else (case refreshCredForLoop u ctx w of
              Inl pw \<Rightarrow> Inl pw
            | Inr (_, u', w') \<Rightarrow> select_loop pick u' ctx ticks w'))"

text \<open>\<^verbatim>\<open>Start\<close> launches the background task only for a positive refresh period.\<close>

definition Start ::
  "(nat \<Rightarrow> bool) \<Rightarrow> Updater \<Rightarrow> Context \<Rightarrow> int list \<Rightarrow> world \<Rightarrow>
     (panic \<times> world) + (loop_status \<times> Updater \<times> world)" where
  "Start pick u ctx ticks w =
     (if refreshPeriod u \<le>s 0 then Inr (NotStarted, u, w)
      else startRefreshLoop pick u ctx ticks w)"

subsection \<open>Observations\<close>

text \<open>
  The world, the Updater and the returned value of an outcome (a panic returns nothing).
\<close>

definition world_of :: "(panic \<times> world) + ('a \<times> Updater \<times> world) \<Rightarrow> world" where
  "world_of r = (case r of Inl (p, w) \<Rightarrow> w | Inr (x, u, w) \<Rightarrow> w)"

definition returned :: "(panic \<times> world) + ('a \<times> Updater \<times> world) \<Rightarrow> 'a option" where
  "returned r = (case r of Inl _ \<Rightarrow> None | Inr (x, u, w) \<Rightarrow> Some x)"

definition updater_of :: "(panic \<times> world) + ('a \<times> Updater \<times> world) \<Rightarrow> Updater option" where
  "updater_of r = (case r of Inl _ \<Rightarrow> None | Inr (x, u, w) \<Rightarrow> Some u)"

definition map_world ::
  "(world \<Rightarrow> world) \<Rightarrow> (panic \<times> world) + ('a \<times> Updater \<times> world) \<Rightarrow>
     (panic \<times> world) + ('a \<times> Updater \<times> world)" where
  "map_world f r = (case r of Inl (p, w) \<Rightarrow> Inl (p, f w) | Inr (x, u, w) \<Rightarrow> Inr (x, u, f w))"

text \<open>The sleeps, the error lines and the fetches of a trace.\<close>

fun sleeps_of :: "event list \<Rightarrow> Duration list" where
  "sleeps_of [] = []"
| "sleeps_of (EvSleep d # es) = d # sleeps_of es"
| "sleeps_of (_ # es) = sleeps_of es"

fun is_EvError :: "event \<Rightarrow> bool" where
  "is_EvError (EvError _ _ _) = True"
| "is_EvError _ = False"

fun is_EvFetch :: "event \<Rightarrow> bool" where
  "is_EvFetch (EvFetch _ _) = True"
| "is_EvFetch _ = False"

text \<open>
  What a test observes: the value of the cached credential, the value a call to
  \<^verbatim>\<open>Credentials(ctx)\<close> hands out, a write through a pointer (any mutation of the
  object at an address replaces its value), and the state of an Updater whose cached
  pointer, if any, is an object it allocated itself.
\<close>

definition cached :: "Updater \<Rightarrow> world \<Rightarrow> Credentials option" where
  "cached u w = map_option (heap w) (getCred u)"

definition served ::
  "(panic \<times> world) + ((addr option \<times> error option) \<times> Updater \<times> world) \<Rightarrow>
     (Credentials option \<times> error option) option" where
  "served r = (case r of Inl _ \<Rightarrow> None | Inr ((p, e), u, w) \<Rightarrow> Some (map_option (heap w) p, e))"

definition store_at :: "addr \<Rightarrow> Credentials \<Rightarrow> world \<Rightarrow> world" where
  "store_at a c w = w\<lparr>heap := (heap w)(a := c)\<rparr>"

definition cache_ok :: "Updater \<Rightarrow> world \<Rightarrow> bool" where
  "cache_ok u w = (case cred u of None \<Rightarrow> True | Some (Own m) \<Rightarrow> m < nxt w | Some (Ext k) \<Rightarrow> False)"

text \<open>
  The kinds of result of the fetch capability: a transient failure is an error other
  than \<^verbatim>\<open>*NotEnableError\<close>, a terminal failure is a \<^verbatim>\<open>*NotEnableError\<close>.
\<close>

definition transient :: "nat option \<times> error option \<Rightarrow> bool" where
  "transient r = (case snd r of None \<Rightarrow> False | Some e \<Rightarrow> \<not> is_NotEnableError e)"

definition terminal :: "nat option \<times> error option \<Rightarrow> bool" where
  "terminal r = (case snd r of None \<Rightarrow> False | Some e \<Rightarrow> is_NotEnableError e)"

subsection \<open>Concrete inputs\<close>

text \<open>
  Instants are nanoseconds since the zero Time; the example clock shows
  63900000000 s.  A credential expiring 60 s after that instant, a fresher one (3600 s
  after it) among the objects of the fetch capability, and an Updater with a serving
  window of 30 s and a refresh period of 100 s in which the first credential is stored.
\<close>

definition ex_cred :: Credentials where
  "ex_cred =
     \<lparr>AccessKeyId = ''id'', AccessKeySecret = ''secret'', SecurityToken = ''token'',
      Expiration = \<lparr>wall = 63900000060000000000, mono = Some 7\<rparr>\<rparr>"

definition ex_fresh :: Credentials where
  "ex_fresh =
     \<lparr>AccessKeyId = ''id2'', AccessKeySecret = ''secret2'', SecurityToken = ''token2'',
      Expiration = \<lparr>wall = 63900003600000000000, mono = Some 9\<rparr>\<rparr>"

definition ex_world :: world where
  "ex_world =
     \<lparr>heap = (\<lambda>_. ex_cred)(Ext 1 := ex_fresh), nxt = 0,
      clock = \<lparr>wall = 63900000000000000000, mono = Some 3\<rparr>, calls = 0, trace = []\<rparr>"

definition at_wall :: "int \<Rightarrow> world \<Rightarrow> world" where
  "at_wall t w = w\<lparr>clock := \<lparr>wall = t, mono = None\<rparr>\<rparr>"

definition ex_opts :: UpdaterOptions where
  "ex_opts = \<lparr>ExpiryWindow = 30 * Second, RefreshPeriod = 100 * Second, OptLogger = None\<rparr>"

text \<open>
  Fetch capabilities: one that always succeeds, one that always fails transiently, one
  that always fails terminally, one that fails transiently three times and then
  succeeds, one that fails transiently twice and terminally from then on.
\<close>

definition fetch_ok :: getCredentialsFunc where
  "fetch_ok = (\<lambda>b n. (Some 1, None))"

definition fetch_transient :: getCredentialsFunc where
  "fetch_transient = (\<lambda>b n. (None, Some (OtherError ''timeout'')))"

definition fetch_terminal :: getCredentialsFunc where
  "fetch_terminal = (\<lambda>b n. (None, Some (NotEnableError ''not enabled'')))"

definition fetch_flaky :: getCredentialsFunc where
  "fetch_flaky = (\<lambda>b n. if n < 3 then (None, Some (OtherError ''timeout'')) else (Some 1, None))"

definition fetch_then_off :: getCredentialsFunc where
  "fetch_then_off =
     (\<lambda>b n. if n < 2 then (None, Some (OtherError ''timeout''))
            else (None, Some (NotEnableError ''not enabled'')))"

definition ex_upd :: Updater where
  "ex_upd = NewUpdater (Some fetch_ok) ex_opts"

definition ex_stored :: "Updater \<times> world" where
  "ex_stored = setCred ex_upd ex_cred ex_world"

text \<open>
  The world 31 s later, when the cached credential has expired, and 100 s earlier;
  the Updater with each of the failing fetch capabilities; ten ticks of the 100 s ticker.
\<close>

definition ex_late :: world where
  "ex_late = at_wall 63900000031000000000 (snd ex_stored)"

definition ex_early :: world where
  "ex_early = at_wall 63899999900000000000 (snd ex_stored)"

definition ex_failing :: Updater where
  "ex_failing = (fst ex_stored)\<lparr>getCredentials := Some fetch_transient\<rparr>"

definition ex_disabled :: Updater where
  "ex_disabled = (fst ex_stored)\<lparr>getCredentials := Some fetch_terminal\<rparr>"

definition ex_flaky :: Updater where
  "ex_flaky = (fst ex_stored)\<lparr>getCredentials := Some fetch_flaky\<rparr>"

definition ex_then_off :: Updater where
  "ex_then_off = (fst ex_stored)\<lparr>getCredentials := Some fetch_then_off\<rparr>"

definition ex_ticks :: "int list" where
  "ex_ticks = map (\<lambda>k. 63900000000000000000 + 100000000000 * int k) [1 ..< 11]"

text \<open>
  Outcomes: a call served from the cache, a call that refreshes, and a refresh on its
  own.
\<close>

definition ex_served ::
  "(panic \<times> world) + ((addr option \<times> error option) \<times> Updater \<times> world)" where
  "ex_served = Updater_Credentials (fst ex_stored) Background (snd ex_stored)"

definition ex_refreshed ::
  "(panic \<times> world) + ((addr option \<times> error option) \<times> Updater \<times> world)" where
  "ex_refreshed = Updater_Credentials (fst ex_stored) Background ex_late"

definition ex_fetched ::
  "(panic \<times> world) + (error option \<times> Updater \<times> world)" where
  "ex_fetched = refreshCred (fst ex_stored) Background ex_late"

text \<open>
  The normalisation as the spec words it, for comparison with \<^verbatim>\<open>Round(0)\<close>: the
  monotonic reading and the fraction of a second are both stripped.
\<close>

definition spec_normalized :: "Time \<Rightarrow> Time" where
  "spec_normalized t = \<lparr>wall = wall t - wall t mod 1000000000, mono = None\<rparr>"

text \<open>A credential whose raw expiration is 60.5 s after the example instant.\<close>

definition ex_half :: Credentials where
  "ex_half =
     \<lparr>AccessKeyId = ''id3'', AccessKeySecret = ''secret3'', SecurityToken = ''token3'',
      Expiration = \<lparr>wall = 63900000060500000000, mono = Some 11\<rparr>\<rparr>"

section \<open>Properties\<close>

subsection \<open>Time arithmetic of the expiry checks\<close>

lemma sint_neg_pos: "0 <s (d::Duration) \<Longrightarrow> sint (- d) = - sint d"
proof -
  assume "0 <s d"
  then have pos: "0 < sint d" by (simp add: word_sless_alt)
  have "sint d < 2 ^ 63" using sint_lt [of d] by simp
  with pos have "signed_take_bit 63 (- sint d) = - sint d"
    by (intro signed_take_bit_int_eq_self) auto
  then show ?thesis by (simp add: sint_word_minus)
qed

lemma Time_Round_0: "Time_Round t 0 = t\<lparr>mono := None\<rparr>"
  by (simp add: Time_Round_def)

lemma mono_expiration: "mono (expiration u w) = None"
  by (simp add: expiration_def Time_zero_def Time_Round_0 split: option.splits)

lemma Time_Before_wall: "mono t = None \<Longrightarrow> Time_Before t x = (wall t < wall x)"
  by (simp add: Time_Before_def)

lemma Time_Add_wall: "mono t = None \<Longrightarrow> Time_Add t d = t\<lparr>wall := wall t + sint d\<rparr>"
  by (simp add: Time_Add_def)

lemma expired_iff: "expired u d w \<longleftrightarrow> wall (expiration u w) + sint (- d) < wall (now u w)"
  by (simp add: expired_def Let_def Time_Add_wall Time_Before_wall mono_expiration)

lemma Expired_iff: "Expired u w \<longleftrightarrow> wall (expiration u w) < wall (now u w)"
  by (simp add: Expired_def expired_iff)

lemma setCred_cred: "setCred u c w = (u', w') \<Longrightarrow> cred u' = Some (Own (nxt w))"
  by (auto simp: setCred_def Let_def)

lemma setCred_Expiration:
  assumes "0 \<le> sint (expiryWindow u)" and "setCred u c w = (u', w')"
  shows "Expiration (heap w' (Own (nxt w))) =
           \<lparr>wall = wall (Expiration c) - sint (expiryWindow u), mono = None\<rparr>"
  using assms
  by (auto simp: setCred_def Let_def DeepCopy_def Time_Round_0 Time_Add_wall sint_neg_pos
      word_sless_alt)

lemmas ex_defs = ex_cred_def ex_fresh_def ex_world_def at_wall_def fetch_ok_def ex_opts_def
  ex_upd_def ex_stored_def ex_late_def NewUpdater_def Second_def

lemmas run_defs = setCred_def Let_def now_def time_Now_def Expired_def expired_def
  expiration_def getCred_def DeepCopy_def Time_Round_def Time_Add_def Time_Before_def
  Updater_Credentials_def refreshCred_def copy_out_def log_Error_def log_Debug_def
  logger_of_def world_of_def Time_zero_def word_sless_alt word_sle_eq

subsection \<open>C1: when the serving check reports expiry\<close>

text \<open>
  C1, as the code has it.  A credential with raw expiration \<open>E\<close> is stored under an
  expiry window \<open>W \<ge> 0\<close>.  In every later state of the world in which that stored
  object is still the cached one, \<^verbatim>\<open>Expired()\<close> is true exactly when the current time is
  strictly after \<open>E - W\<close>: the comparison is \<^verbatim>\<open>Before\<close>, so at the instant \<open>E - W\<close>
  itself the credential is not yet expired.
\<close>

theorem Expired_iff_after_window:
  assumes "0 \<le> sint (expiryWindow u)"
    and "setCred u c w = (u', w')"
    and "heap w2 (Own (nxt w)) = heap w' (Own (nxt w))"
  shows "Expired u' w2 \<longleftrightarrow> wall (Expiration c) - sint (expiryWindow u) < wall (now u' w2)"
proof -
  have "cred u' = Some (Own (nxt w))"
    using assms(2) by (rule setCred_cred)
  moreover have "Expiration (heap w2 (Own (nxt w))) =
      \<lparr>wall = wall (Expiration c) - sint (expiryWindow u), mono = None\<rparr>"
    using setCred_Expiration [OF assms(1,2)] assms(3) by simp
  ultimately have "wall (expiration u' w2) = wall (Expiration c) - sint (expiryWindow u)"
    by (simp add: expiration_def getCred_def Time_Round_0)
  then show ?thesis by (simp add: Expired_iff)
qed

text \<open>
  The scenario of the spec: window 30 s, raw expiration 60 s ahead; 31 s later the
  credential is expired.
\<close>

theorem Expired_iff_after_window_witness:
  "0 \<le> sint (expiryWindow ex_upd) \<and>
   Expired (fst ex_stored) (at_wall 63900000031000000000 (snd ex_stored))"
  using Expired_iff_after_window [of ex_upd ex_cred ex_world "fst ex_stored" "snd ex_stored"
      "at_wall 63900000031000000000 (snd ex_stored)"]
  by (simp add: ex_defs setCred_def Let_def now_def time_Now_def)

text \<open>
  C1 as stated (expired if and only if \<open>now \<ge> E - W\<close>) fails at \<open>now = E - W\<close>: exactly
  30 s later the current time has reached \<open>E - W\<close> and \<^verbatim>\<open>Expired()\<close> is still false.
\<close>

theorem Expired_at_boundary_counterexample:
  "wall (Expiration ex_cred) - sint (expiryWindow ex_upd)
     \<le> wall (now (fst ex_stored) (at_wall 63900000030000000000 (snd ex_stored))) \<and>
   \<not> Expired (fst ex_stored) (at_wall 63900000030000000000 (snd ex_stored))"
  by (simp add: ex_defs setCred_def Let_def now_def time_Now_def Expired_def expired_def
      expiration_def getCred_def DeepCopy_def Time_Round_def Time_Add_def Time_Before_def)

subsection \<open>The synchronous path: one fetch, errors passed on\<close>

lemma refreshCred_calls:
  "getCredentials u = Some g \<Longrightarrow> calls (world_of (refreshCred u ctx w)) = Suc (calls w)"
  by (auto simp: refreshCred_def world_of_def Let_def log_Error_def log_Debug_def setCred_def
      split: prod.splits option.splits)

lemma refreshCred_error:
  assumes "getCredentials u = Some g" and "g (ctx_Done ctx w) (calls w) = (p, Some e)"
  shows "\<exists>w'. refreshCred u ctx w = Inr (Some e, u, w') \<and> heap w' = heap w \<and> nxt w' = nxt w"
  using assms by (simp add: refreshCred_def Let_def log_Error_def)

lemma copy_out_calls: "calls (world_of (copy_out u w)) = calls w"
  by (simp add: copy_out_def world_of_def Let_def split: option.splits)

text \<open>
  C3.  When a call to \<^verbatim>\<open>Credentials(ctx)\<close> refreshes and the fetch capability returns
  an error, of either kind, the call returns that very error with a nil credential; the
  Updater is unchanged (it caches the same object as before, or none) and so is every
  object of the store.
\<close>

theorem Credentials_fetch_error:
  assumes "Expired u w"
    and "getCredentials u = Some g"
    and "g (ctx_Done ctx w) (calls w) = (p, Some e)"
  shows "\<exists>w'. Updater_Credentials u ctx w = Inr ((None, Some e), u, w') \<and>
              heap w' = heap w \<and> nxt w' = nxt w"
proof -
  from refreshCred_error [OF assms(2,3)] obtain w' where
    "refreshCred u ctx w = Inr (Some e, u, w')" and "heap w' = heap w" and "nxt w' = nxt w"
    by blast
  with assms(1) show ?thesis
    by (simp add: Updater_Credentials_def)
qed

theorem Credentials_fetch_error_witness:
  "Expired ex_failing ex_late \<and>
   (\<exists>w'. Updater_Credentials ex_failing Background ex_late =
            Inr ((None, Some (OtherError ''timeout'')), ex_failing, w') \<and>
          heap w' = heap ex_late \<and> nxt w' = nxt ex_late) \<and>
   Expired ex_disabled ex_late \<and>
   (\<exists>w'. Updater_Credentials ex_disabled Background ex_late =
            Inr ((None, Some (NotEnableError ''not enabled'')), ex_disabled, w') \<and>
          heap w' = heap ex_late \<and> nxt w' = nxt ex_late)"
proof -
  have a: "Expired ex_failing ex_late" and b: "Expired ex_disabled ex_late"
    by (simp_all add: ex_defs ex_failing_def fetch_transient_def ex_disabled_def
        fetch_terminal_def run_defs)
  have c: "getCredentials ex_failing = Some fetch_transient"
    and d: "getCredentials ex_disabled = Some fetch_terminal"
    by (simp_all add: ex_failing_def ex_disabled_def)
  have e: "fetch_transient (ctx_Done Background ex_late) (calls ex_late) =
      (None, Some (OtherError ''timeout''))"
    and f: "fetch_terminal (ctx_Done Background ex_late) (calls ex_late) =
      (None, Some (NotEnableError ''not enabled''))"
    by (simp_all add: fetch_transient_def fetch_terminal_def)
  show ?thesis
    using a b Credentials_fetch_error [OF a c e] Credentials_fetch_error [OF b d f] by simp
qed

text \<open>
  C10.  Whenever \<^verbatim>\<open>Credentials(ctx)\<close> returns a non-nil error, the credential pointer
  it returns is nil, also when an older credential is still cached.
\<close>

theorem Credentials_error_nil:
  "returned (Updater_Credentials u ctx w) = Some (p, Some e) \<Longrightarrow> p = None"
  by (auto simp: Updater_Credentials_def returned_def copy_out_def Let_def
      split: if_splits sum.splits prod.splits option.splits)

text \<open>The failing Updater still caches the expired credential and hands out nil.\<close>

theorem Credentials_error_nil_witness:
  "returned (Updater_Credentials ex_failing Background ex_late) =
     Some (fst (the (returned (Updater_Credentials ex_failing Background ex_late))),
           Some (OtherError ''timeout'')) \<and>
   cred ex_failing \<noteq> None \<and>
   fst (the (returned (Updater_Credentials ex_failing Background ex_late))) = None"
proof -
  have h: "returned (Updater_Credentials ex_failing Background ex_late) =
     Some (fst (the (returned (Updater_Credentials ex_failing Background ex_late))),
           Some (OtherError ''timeout''))"
    by (simp add: ex_defs ex_failing_def fetch_transient_def run_defs returned_def)
  have "cred ex_failing \<noteq> None"
    by (simp add: ex_defs ex_failing_def fetch_transient_def run_defs returned_def)
  with h Credentials_error_nil [OF h] show ?thesis by simp
qed

subsection \<open>What a refresh stores\<close>

lemma DeepCopy_id: "DeepCopy c = c"
  by (cases c) (simp add: DeepCopy_def)

lemma refreshCred_success:
  assumes "getCredentials u = Some g" and "g (ctx_Done ctx w) (calls w) = (Some k, None)"
  shows "\<exists>w'. refreshCred u ctx w = Inr (None, u\<lparr>cred := Some (Own (nxt w))\<rparr>, w') \<and>
          nxt w' = Suc (nxt w) \<and> clock w' = clock w \<and>
          heap w' = (heap w)(Own (nxt w) := heap w' (Own (nxt w))) \<and>
          heap w' (Own (nxt w)) = heap (snd (setCred u (heap w (Ext k)) w)) (Own (nxt w))"
  using assms
  by (simp add: refreshCred_def Let_def log_Debug_def setCred_def)

lemma stored_Time_Add:
  "0 \<le> sint (W::Duration) \<Longrightarrow>
   Time_Add (Time_Round E 0) (- W) = \<lparr>wall = wall E - sint W, mono = None\<rparr>"
proof (cases "W = 0")
  case True
  then show ?thesis by (simp add: Time_Round_0 Time_Add_wall)
next
  case False
  assume "0 \<le> sint W"
  with False have "0 < sint W"
    using signed_eq_0_iff [of W, where ?'a = int] by (simp add: order_le_less)
  then have "sint (- W) = - sint W"
    by (intro sint_neg_pos) (simp add: word_sless_alt)
  then show ?thesis by (simp add: Time_Round_0 Time_Add_wall)
qed

lemma setCred_stored_value:
  "0 \<le> sint (expiryWindow u) \<Longrightarrow>
   Expiration (heap (snd (setCred u c w)) (Own (nxt w))) =
     Time_Add (Time_Round (Expiration c) 0) (- expiryWindow u)"
  using setCred_Expiration [of u c w "fst (setCred u c w)" "snd (setCred u c w)"]
  by (simp add: stored_Time_Add)

lemma setCred_value:
  "heap (snd (setCred u c w)) (Own (nxt w)) =
     c\<lparr>Expiration :=
         (if 0 <s expiryWindow u
          then Time_Add (Time_Round (Expiration c) 0) (- expiryWindow u)
          else Time_Round (Expiration c) 0)\<rparr>"
  by (cases c) (simp add: setCred_def DeepCopy_def Let_def)

lemma copy_out_cached:
  assumes "cred u = Some a"
  shows "copy_out u w =
     Inr ((Some (Own (nxt w)), None), u,
          w\<lparr>heap := (heap w)(Own (nxt w) := heap w a), nxt := Suc (nxt w)\<rparr>)"
  using assms by (simp add: copy_out_def getCred_def Let_def DeepCopy_id)

lemma Credentials_after_refresh:
  assumes "Expired u w" and "getCredentials u = Some g"
    and "g (ctx_Done ctx w) (calls w) = (Some k, None)"
  shows "\<exists>w2. Updater_Credentials u ctx w =
           Inr ((Some (Own (Suc (nxt w))), None), u\<lparr>cred := Some (Own (nxt w))\<rparr>, w2) \<and>
         nxt w2 = Suc (Suc (nxt w)) \<and>
         heap w2 (Own (Suc (nxt w))) = heap w2 (Own (nxt w)) \<and>
         heap w2 (Own (nxt w)) = heap (snd (setCred u (heap w (Ext k)) w)) (Own (nxt w))"
proof -
  from refreshCred_success [OF assms(2,3)] obtain w' where
    r: "refreshCred u ctx w = Inr (None, u\<lparr>cred := Some (Own (nxt w))\<rparr>, w')"
    and n: "nxt w' = Suc (nxt w)"
    and h: "heap w' (Own (nxt w)) = heap (snd (setCred u (heap w (Ext k)) w)) (Own (nxt w))"
    by blast
  have "copy_out (u\<lparr>cred := Some (Own (nxt w))\<rparr>) w' =
     Inr ((Some (Own (nxt w')), None), u\<lparr>cred := Some (Own (nxt w))\<rparr>,
          w'\<lparr>heap := (heap w')(Own (nxt w') := heap w' (Own (nxt w))), nxt := Suc (nxt w')\<rparr>)"
    by (rule copy_out_cached) simp
  with assms(1) r n h show ?thesis
    by (simp add: Updater_Credentials_def)
qed

text \<open>
  C2.  A call to \<^verbatim>\<open>Credentials(ctx)\<close> that finds the cached credential not expired by
  the serving check does not invoke the fetch capability.  A call that finds it expired
  invokes the capability exactly once, whatever the outcome (success, error or panic).
  After a call that refreshed with success (the capability returned a credential with
  raw expiration \<open>E\<close>, stored under the window \<open>W \<ge> 0\<close>), every later call made while the
  cache is unchanged and the current time is before the new adjusted expiration
  \<open>E - W\<close> does not invoke the capability.
\<close>

theorem Credentials_fetch_count:
  "(\<not> Expired u w \<longrightarrow> calls (world_of (Updater_Credentials u ctx w)) = calls w) \<and>
   (Expired u w \<and> getCredentials u = Some g \<longrightarrow>
      calls (world_of (Updater_Credentials u ctx w)) = Suc (calls w)) \<and>
   (Expired u w \<and> getCredentials u = Some g \<and>
    g (ctx_Done ctx w) (calls w) = (Some k, None) \<and> 0 \<le> sint (expiryWindow u) \<and>
    Updater_Credentials u ctx w = Inr (x, u', w') \<and> cached u' w2 = cached u' w' \<and>
    wall (now u' w2) < wall (Expiration (heap w (Ext k))) - sint (expiryWindow u) \<longrightarrow>
      calls (world_of (Updater_Credentials u' ctx2 w2)) = calls w2)"
proof (intro conjI impI)
  assume "\<not> Expired u w"
  then show "calls (world_of (Updater_Credentials u ctx w)) = calls w"
    by (simp add: Updater_Credentials_def copy_out_calls)
next
  assume "Expired u w \<and> getCredentials u = Some g"
  then have ex: "Expired u w" and g: "getCredentials u = Some g" by simp_all
  show "calls (world_of (Updater_Credentials u ctx w)) = Suc (calls w)"
  proof (cases "refreshCred u ctx w")
    case (Inl pw)
    with ex refreshCred_calls [OF g, of ctx w] show ?thesis
      by (simp add: Updater_Credentials_def world_of_def)
  next
    case (Inr t)
    obtain err u1 w1 where t: "t = (err, u1, w1)" by (cases t)
    with Inr refreshCred_calls [OF g, of ctx w] have "calls w1 = Suc (calls w)"
      by (simp add: world_of_def)
    with ex Inr t copy_out_calls [of u1 w1] show ?thesis
      by (cases err) (simp_all add: Updater_Credentials_def world_of_def)
  qed
next
  assume a: "Expired u w \<and> getCredentials u = Some g \<and>
    g (ctx_Done ctx w) (calls w) = (Some k, None) \<and> 0 \<le> sint (expiryWindow u) \<and>
    Updater_Credentials u ctx w = Inr (x, u', w') \<and> cached u' w2 = cached u' w' \<and>
    wall (now u' w2) < wall (Expiration (heap w (Ext k))) - sint (expiryWindow u)"
  then obtain w3 where
    r: "Updater_Credentials u ctx w =
       Inr ((Some (Own (Suc (nxt w))), None), u\<lparr>cred := Some (Own (nxt w))\<rparr>, w3)"
    and h: "heap w3 (Own (nxt w)) = heap (snd (setCred u (heap w (Ext k)) w)) (Own (nxt w))"
    using Credentials_after_refresh [of u w g ctx k] by blast
  from a r have u': "u' = u\<lparr>cred := Some (Own (nxt w))\<rparr>" and w': "w' = w3" by simp_all
  from a u' w' have "heap w2 (Own (nxt w)) = heap w3 (Own (nxt w))"
    by (simp add: cached_def getCred_def)
  with h a have "Expiration (heap w2 (Own (nxt w))) =
      \<lparr>wall = wall (Expiration (heap w (Ext k))) - sint (expiryWindow u), mono = None\<rparr>"
    using setCred_stored_value [of u "heap w (Ext k)" w] by (simp add: stored_Time_Add)
  with a u' have "\<not> Expired u' w2"
    by (simp add: Expired_iff expiration_def getCred_def Time_Round_0)
  then show "calls (world_of (Updater_Credentials u' ctx2 w2)) = calls w2"
    by (simp add: Updater_Credentials_def copy_out_calls)
qed

text \<open>
  At the instant of the example clock the stored credential is fresh and is served with
  no fetch; 31 s later a call fetches once and stores the fresher credential; 100 s
  after the start the next call fetches nothing.
\<close>

theorem Credentials_fetch_count_witness:
  "\<not> Expired (fst ex_stored) (snd ex_stored) \<and>
   calls (world_of (Updater_Credentials (fst ex_stored) Background (snd ex_stored))) =
     calls (snd ex_stored) \<and>
   Expired (fst ex_stored) ex_late \<and>
   calls (world_of ex_refreshed) = Suc (calls ex_late) \<and>
   calls (world_of (Updater_Credentials (the (updater_of ex_refreshed)) Background
      (at_wall 63900000100000000000 (world_of ex_refreshed)))) =
     calls (at_wall 63900000100000000000 (world_of ex_refreshed))"
proof -
  have a: "\<not> Expired (fst ex_stored) (snd ex_stored)"
    and b: "Expired (fst ex_stored) ex_late"
    and g: "getCredentials (fst ex_stored) = Some fetch_ok"
    and f: "fetch_ok (ctx_Done Background ex_late) (calls ex_late) = (Some 1, None)"
    and p: "0 \<le> sint (expiryWindow (fst ex_stored))"
    by (simp_all add: ex_defs ex_refreshed_def run_defs updater_of_def)
  have r: "Updater_Credentials (fst ex_stored) Background ex_late =
      Inr ((Some (Own 2), None), the (updater_of ex_refreshed), world_of ex_refreshed)"
    by (simp add: ex_defs ex_refreshed_def run_defs updater_of_def)
  have c: "cached (the (updater_of ex_refreshed))
        (at_wall 63900000100000000000 (world_of ex_refreshed)) =
      cached (the (updater_of ex_refreshed)) (world_of ex_refreshed)"
    by (simp add: at_wall_def cached_def)
  have t: "wall (now (the (updater_of ex_refreshed))
        (at_wall 63900000100000000000 (world_of ex_refreshed)))
      < wall (Expiration (heap ex_late (Ext 1))) - sint (expiryWindow (fst ex_stored))"
    by (simp add: ex_defs ex_refreshed_def run_defs updater_of_def)
  note t1 = Credentials_fetch_count [where u = "fst ex_stored" and w = "snd ex_stored"
      and ctx = Background]
  note t2 = Credentials_fetch_count [where u = "fst ex_stored" and w = ex_late
      and ctx = Background and g = fetch_ok and k = 1 and x = "(Some (Own 2), None)"
      and u' = "the (updater_of ex_refreshed)" and w' = "world_of ex_refreshed"
      and ?w2.0 = "at_wall 63900000100000000000 (world_of ex_refreshed)" and ?ctx2.0 = Background]
  have p1: "calls (world_of (Updater_Credentials (fst ex_stored) Background (snd ex_stored))) =
     calls (snd ex_stored)"
    using t1 [THEN conjunct1] a by simp
  have p2: "calls (world_of ex_refreshed) = Suc (calls ex_late)"
    using t2 [THEN conjunct2, THEN conjunct1] b g by (simp add: ex_refreshed_def)
  have p3: "calls (world_of (Updater_Credentials (the (updater_of ex_refreshed)) Background
      (at_wall 63900000100000000000 (world_of ex_refreshed)))) =
     calls (at_wall 63900000100000000000 (world_of ex_refreshed))"
    using t2 [THEN conjunct2, THEN conjunct2] b g f p r c t by simp
  from a b p1 p2 p3 show ?thesis by simp
qed

subsection \<open>Copies: writes through handed-out pointers\<close>

lemma expiration_store_at:
  "cred u \<noteq> Some a \<Longrightarrow> expiration u (store_at a c w) = expiration u w"
  by (auto simp: expiration_def getCred_def store_at_def split: option.splits)

lemma now_store_at: "now u (store_at a c w) = now u w"
  by (simp add: now_def time_Now_def store_at_def split: option.splits)

lemma Expired_store_at:
  "cred u \<noteq> Some a \<Longrightarrow> Expired u (store_at a c w) = Expired u w"
  by (simp add: Expired_iff expiration_store_at now_store_at)

lemma copy_out_store_at:
  assumes "cred u \<noteq> Some a" and "a \<noteq> Own (nxt w)"
  shows "copy_out u (store_at a c w) = map_world (store_at a c) (copy_out u w)"
  using assms
  by (auto simp: copy_out_def getCred_def store_at_def map_world_def Let_def fun_upd_twist
      split: option.splits)

lemma refreshCred_store_at:
  assumes "n < nxt w"
  shows "refreshCred u ctx (store_at (Own n) c w) =
         map_world (store_at (Own n) c) (refreshCred u ctx w)"
proof -
  have d: "ctx_Done ctx (store_at (Own n) c w) = ctx_Done ctx w"
    by (cases ctx) (simp_all add: store_at_def)
  have t: "\<And>h x. h(Own n := c, Own (nxt w) := x) = h(Own (nxt w) := x, Own n := c)"
    using assms by (simp add: fun_upd_twist)
  show ?thesis
    unfolding refreshCred_def d
    by (auto simp: store_at_def map_world_def Let_def log_Error_def log_Debug_def setCred_def t
        split: option.splits prod.splits)
qed

lemma refreshCred_cred:
  "refreshCred u ctx w = Inr (x, u', w') \<Longrightarrow>
     nxt w \<le> nxt w' \<and> (cred u' = cred u \<or> cred u' = Some (Own (nxt w)) \<and> nxt w < nxt w')"
  by (auto simp: refreshCred_def Let_def log_Error_def log_Debug_def setCred_def
      split: option.splits prod.splits if_splits)

lemma Credentials_store_at:
  assumes "n < nxt w" and "cred u \<noteq> Some (Own n)"
  shows "Updater_Credentials u ctx (store_at (Own n) c w) =
         map_world (store_at (Own n) c) (Updater_Credentials u ctx w)"
proof (cases "Expired u w")
  case False
  have "Own n \<noteq> Own (nxt w)" using assms(1) by simp
  with False assms(2) show ?thesis
    by (simp add: Updater_Credentials_def Expired_store_at copy_out_store_at)
next
  case True
  show ?thesis
  proof (cases "refreshCred u ctx w")
    case (Inl pw)
    with True assms show ?thesis
      by (cases pw)
        (simp add: Updater_Credentials_def Expired_store_at refreshCred_store_at map_world_def)
  next
    case (Inr t)
    obtain x u' w' where t: "t = (x, u', w')" by (cases t)
    from Inr t refreshCred_cred [of u ctx w x u' w']
    have n: "nxt w \<le> nxt w'"
      and c: "cred u' = cred u \<or> cred u' = Some (Own (nxt w)) \<and> nxt w < nxt w'"
      by simp_all
    from c assms have c': "cred u' \<noteq> Some (Own n)" by auto
    from n assms(1) have "Own n \<noteq> Own (nxt w')" by simp
    with c' have "copy_out u' (store_at (Own n) c w') =
        map_world (store_at (Own n) c) (copy_out u' w')"
      by (rule copy_out_store_at)
    with True assms Inr t show ?thesis
      by (cases x)
        (simp_all add: Updater_Credentials_def Expired_store_at refreshCred_store_at
          map_world_def)
  qed
qed

lemma copy_out_fresh:
  "copy_out u w = Inr ((p, e), u', w') \<Longrightarrow> p = Some (Own (nxt w)) \<and> u' = u \<and> nxt w' = Suc (nxt w)"
  by (auto simp: copy_out_def Let_def split: option.splits)

lemma Credentials_fresh:
  assumes "Updater_Credentials u ctx w = Inr ((Some r, e), u', w')" and "cache_ok u w"
  shows "\<exists>m. r = Own m \<and> nxt w \<le> m \<and> m < nxt w' \<and> cred u' \<noteq> Some r \<and> cache_ok u' w'"
proof (cases "Expired u w")
  case False
  with assms(1) have "copy_out u w = Inr ((Some r, e), u', w')"
    by (simp add: Updater_Credentials_def)
  from copy_out_fresh [OF this] assms(2) show ?thesis
    by (auto simp: cache_ok_def split: option.splits addr.splits)
next
  case True
  with assms(1) obtain u1 w1 where
    r: "refreshCred u ctx w = Inr (None, u1, w1)" and
    c: "copy_out u1 w1 = Inr ((Some r, e), u', w')"
    by (auto simp: Updater_Credentials_def split: sum.splits prod.splits option.splits)
  from refreshCred_cred [OF r] copy_out_fresh [OF c] assms(2) show ?thesis
    by (auto simp: cache_ok_def split: option.splits addr.splits)
qed

lemma served_map_world:
  assumes "\<And>e u' w'. R \<noteq> Inr ((Some a, e), u', w')"
  shows "served (map_world (store_at a c) R) = served R"
proof (cases R)
  case (Inl pw)
  then show ?thesis by (cases pw) (simp add: served_def map_world_def)
next
  case (Inr t)
  obtain p e u' w' where t: "t = ((p, e), u', w')" by (cases t) auto
  with Inr assms have "p \<noteq> Some a" by auto
  with Inr t show ?thesis
    by (cases p) (simp_all add: served_def map_world_def store_at_def)
qed

lemma cached_store_at:
  "cred u \<noteq> Some a \<Longrightarrow> cached u (store_at a c w) = cached u w"
  by (cases "cred u") (simp_all add: cached_def getCred_def store_at_def)

text \<open>
  C9.  A call to \<^verbatim>\<open>Credentials(ctx)\<close> that returns a pointer returns a new object that
  holds the cached value: whatever the caller writes to it, the cached value is
  unchanged, and every later call returns the same credential value and error as it
  would have without the write.  Storing copies: \<^verbatim>\<open>setCred\<close> caches a new object that
  holds the fields of the value it is given, with the expiration normalised and shifted;
  a successful refresh caches in this way the value of the object the fetch capability
  returned; and whatever is later written to an object of the fetch capability, the
  cached value is unchanged, and a call served from the cache returns the same value.
\<close>

theorem Credentials_defensive_copy:
  "(cache_ok u w \<and> Updater_Credentials u ctx w = Inr ((Some r, e), u', w') \<longrightarrow>
      Some (heap w' r) = cached u' w' \<and>
      cached u' (store_at r c w') = cached u' w' \<and>
      (\<forall>w2. nxt w' \<le> nxt w2 \<longrightarrow>
         served (Updater_Credentials u' ctx2 (store_at r c w2)) =
         served (Updater_Credentials u' ctx2 w2))) \<and>
   (setCred u cv w = (us, ws) \<longrightarrow>
      cached us ws =
        Some (cv\<lparr>Expiration :=
                   (if 0 <s expiryWindow u
                    then Time_Add (Time_Round (Expiration cv) 0) (- expiryWindow u)
                    else Time_Round (Expiration cv) 0)\<rparr>)) \<and>
   (refreshCred u ctx w = Inr (None, u', w') \<longrightarrow>
      (getCredentials u = Some g \<and> g (ctx_Done ctx w) (calls w) = (Some kf, None) \<longrightarrow>
         cached u' w' =
           Some ((heap w (Ext kf))\<lparr>Expiration :=
                   (if 0 <s expiryWindow u
                    then Time_Add (Time_Round (Expiration (heap w (Ext kf))) 0)
                           (- expiryWindow u)
                    else Time_Round (Expiration (heap w (Ext kf))) 0)\<rparr>)) \<and>
      cached u' (store_at (Ext k) c w') = cached u' w' \<and>
      (\<forall>w2. \<not> Expired u' w2 \<longrightarrow>
         served (Updater_Credentials u' ctx2 (store_at (Ext k) c w2)) =
         served (Updater_Credentials u' ctx2 w2)))"
proof (intro conjI impI allI)
  assume a: "cache_ok u w \<and> Updater_Credentials u ctx w = Inr ((Some r, e), u', w')"
  then obtain m where m: "r = Own m" "m < nxt w'" "cred u' \<noteq> Some r"
    using Credentials_fresh [of u ctx w r e u' w'] by blast
  show "Some (heap w' r) = cached u' w'"
  proof (cases "Expired u w")
    case False
    with a have "copy_out u w = Inr ((Some r, e), u', w')"
      by (simp add: Updater_Credentials_def)
    with m(3) show ?thesis
      by (auto simp: copy_out_def cached_def getCred_def Let_def DeepCopy_id
          split: option.splits)
  next
    case True
    with a obtain u1 w1 where "copy_out u1 w1 = Inr ((Some r, e), u', w')"
      by (auto simp: Updater_Credentials_def split: sum.splits prod.splits option.splits)
    with m(3) show ?thesis
      by (auto simp: copy_out_def cached_def getCred_def Let_def DeepCopy_id
          split: option.splits)
  qed
  from m show "cached u' (store_at r c w') = cached u' w'"
    by (simp add: cached_store_at)
  fix w2 :: world
  assume "nxt w' \<le> nxt w2"
  with m have lt: "m < nxt w2" by simp
  have eq: "Updater_Credentials u' ctx2 (store_at (Own m) c w2) =
      map_world (store_at (Own m) c) (Updater_Credentials u' ctx2 w2)"
    using lt m(1,3) by (intro Credentials_store_at) simp_all
  have "served (map_world (store_at (Own m) c) (Updater_Credentials u' ctx2 w2)) =
      served (Updater_Credentials u' ctx2 w2)"
  proof (rule served_map_world)
    fix e2 u2 w3
    show "Updater_Credentials u' ctx2 w2 \<noteq> Inr ((Some (Own m), e2), u2, w3)"
    proof
      assume r: "Updater_Credentials u' ctx2 w2 = Inr ((Some (Own m), e2), u2, w3)"
      then have "nxt w2 \<le> m"
        by (auto simp: Updater_Credentials_def split: if_splits sum.splits prod.splits
            option.splits dest!: copy_out_fresh refreshCred_cred)
      with lt show False by simp
    qed
  qed
  with eq m(1) show "served (Updater_Credentials u' ctx2 (store_at r c w2)) =
      served (Updater_Credentials u' ctx2 w2)"
    by simp
next
  assume s: "setCred u cv w = (us, ws)"
  then have "cred us = Some (Own (nxt w))" by (rule setCred_cred)
  with s setCred_value [of u cv w]
  show "cached us ws =
        Some (cv\<lparr>Expiration :=
                   (if 0 <s expiryWindow u
                    then Time_Add (Time_Round (Expiration cv) 0) (- expiryWindow u)
                    else Time_Round (Expiration cv) 0)\<rparr>)"
    by (simp add: cached_def getCred_def)
next
  assume r: "refreshCred u ctx w = Inr (None, u', w')"
  assume "getCredentials u = Some g \<and> g (ctx_Done ctx w) (calls w) = (Some kf, None)"
  then obtain wb where
    "refreshCred u ctx w = Inr (None, u\<lparr>cred := Some (Own (nxt w))\<rparr>, wb)"
    and "heap wb (Own (nxt w)) = heap (snd (setCred u (heap w (Ext kf)) w)) (Own (nxt w))"
    using refreshCred_success [of u g ctx w kf] by blast
  with r setCred_value [of u "heap w (Ext kf)" w]
  show "cached u' w' =
           Some ((heap w (Ext kf))\<lparr>Expiration :=
                   (if 0 <s expiryWindow u
                    then Time_Add (Time_Round (Expiration (heap w (Ext kf))) 0)
                           (- expiryWindow u)
                    else Time_Round (Expiration (heap w (Ext kf))) 0)\<rparr>)"
    by (auto simp: cached_def getCred_def)
next
  assume r: "refreshCred u ctx w = Inr (None, u', w')"
  then have "\<exists>j. cred u' = Some (Own j)"
    by (auto simp: refreshCred_def Let_def log_Error_def log_Debug_def setCred_def
        split: option.splits prod.splits if_splits)
  then obtain j where j: "cred u' = Some (Own j)" by blast
  then show "cached u' (store_at (Ext k) c w') = cached u' w'"
    by (simp add: cached_store_at)
  fix w2 :: world
  assume "\<not> Expired u' w2"
  moreover from j have "Expired u' (store_at (Ext k) c w2) = Expired u' w2"
    by (simp add: Expired_store_at)
  ultimately show "served (Updater_Credentials u' ctx2 (store_at (Ext k) c w2)) =
      served (Updater_Credentials u' ctx2 w2)"
    using j
    by (simp add: Updater_Credentials_def copy_out_def getCred_def Let_def served_def
        store_at_def)
qed

text \<open>
  A call served from the cache returns the new object \<open>Own 1\<close> holding the cached
  credential; overwriting it changes neither the cache nor the next call.  The refresh
  31 s later caches the fields of the fetched credential; overwriting the fetched object
  changes neither the cache nor the next call.
\<close>

theorem Credentials_defensive_copy_witness:
  "cache_ok (fst ex_stored) (snd ex_stored) \<and>
   returned ex_served = Some (Some (Own 1), None) \<and>
   Some (heap (world_of ex_served) (Own 1)) =
     cached (the (updater_of ex_served)) (world_of ex_served) \<and>
   cached (the (updater_of ex_served)) (world_of ex_served) =
     Some (ex_cred\<lparr>Expiration := \<lparr>wall = 63900000030000000000, mono = None\<rparr>\<rparr>) \<and>
   cached (the (updater_of ex_served)) (store_at (Own 1) ex_fresh (world_of ex_served)) =
     cached (the (updater_of ex_served)) (world_of ex_served) \<and>
   served (Updater_Credentials (the (updater_of ex_served)) Background
             (store_at (Own 1) ex_fresh (world_of ex_served))) =
     served (Updater_Credentials (the (updater_of ex_served)) Background (world_of ex_served)) \<and>
   cached (fst ex_stored) (snd ex_stored) =
     Some (ex_cred\<lparr>Expiration := \<lparr>wall = 63900000030000000000, mono = None\<rparr>\<rparr>) \<and>
   cached (the (updater_of ex_fetched)) (world_of ex_fetched) =
     Some (ex_fresh\<lparr>Expiration := \<lparr>wall = 63900003570000000000, mono = None\<rparr>\<rparr>) \<and>
   cached (the (updater_of ex_fetched)) (store_at (Ext 1) ex_cred (world_of ex_fetched)) =
     cached (the (updater_of ex_fetched)) (world_of ex_fetched) \<and>
   served (Updater_Credentials (the (updater_of ex_fetched)) Background
             (store_at (Ext 1) ex_cred (world_of ex_fetched))) =
     served (Updater_Credentials (the (updater_of ex_fetched)) Background (world_of ex_fetched))"
proof -
  have a: "cache_ok (fst ex_stored) (snd ex_stored)"
    by (simp add: ex_defs run_defs cache_ok_def)
  have b: "Updater_Credentials (fst ex_stored) Background (snd ex_stored) =
      Inr ((Some (Own 1), None), the (updater_of ex_served), world_of ex_served)"
    by (simp add: ex_defs run_defs updater_of_def ex_served_def)
  have b': "returned ex_served = Some (Some (Own 1), None)"
    by (simp add: ex_defs run_defs ex_served_def returned_def)
  have c: "refreshCred (fst ex_stored) Background ex_late =
      Inr (None, the (updater_of ex_fetched), world_of ex_fetched)"
    by (simp add: ex_defs run_defs updater_of_def ex_fetched_def)
  have d: "\<not> Expired (the (updater_of ex_fetched)) (world_of ex_fetched)"
    by (simp add: ex_defs run_defs updater_of_def ex_fetched_def)
  have s: "setCred ex_upd ex_cred ex_world = (fst ex_stored, snd ex_stored)"
    by (simp add: ex_stored_def)
  have g: "getCredentials (fst ex_stored) = Some fetch_ok"
    and f: "fetch_ok (ctx_Done Background ex_late) (calls ex_late) = (Some 1, None)"
    and h: "heap ex_late (Ext 1) = ex_fresh"
    and p: "0 <s expiryWindow ex_upd" "0 <s expiryWindow (fst ex_stored)"
    by (simp_all add: ex_defs run_defs)
  have v1: "Time_Add (Time_Round (Expiration ex_cred) 0) (- expiryWindow ex_upd) =
      \<lparr>wall = 63900000030000000000, mono = None\<rparr>"
    and v2: "Time_Add (Time_Round (Expiration ex_fresh) 0) (- expiryWindow (fst ex_stored)) =
      \<lparr>wall = 63900003570000000000, mono = None\<rparr>"
    by (simp_all add: ex_defs run_defs)
  note t1 = Credentials_defensive_copy [where u = "fst ex_stored" and w = "snd ex_stored"
      and ctx = Background and r = "Own 1" and e = None
      and u' = "the (updater_of ex_served)" and w' = "world_of ex_served" and c = ex_fresh
      and ?ctx2.0 = Background]
  note t2 = Credentials_defensive_copy [where u = ex_upd and cv = ex_cred and w = ex_world
      and us = "fst ex_stored" and ws = "snd ex_stored"]
  note t3 = Credentials_defensive_copy [where u = "fst ex_stored" and w = ex_late
      and ctx = Background and u' = "the (updater_of ex_fetched)"
      and w' = "world_of ex_fetched" and g = fetch_ok and kf = 1 and k = 1 and c = ex_cred
      and ?ctx2.0 = Background]
  have q1: "Some (heap (world_of ex_served) (Own 1)) =
        cached (the (updater_of ex_served)) (world_of ex_served) \<and>
      cached (the (updater_of ex_served)) (store_at (Own 1) ex_fresh (world_of ex_served)) =
        cached (the (updater_of ex_served)) (world_of ex_served) \<and>
      served (Updater_Credentials (the (updater_of ex_served)) Background
             (store_at (Own 1) ex_fresh (world_of ex_served))) =
        served (Updater_Credentials (the (updater_of ex_served)) Background
             (world_of ex_served))"
    using t1 [THEN conjunct1] a b by simp
  have q2: "cached (fst ex_stored) (snd ex_stored) =
      Some (ex_cred\<lparr>Expiration := \<lparr>wall = 63900000030000000000, mono = None\<rparr>\<rparr>)"
    using t2 [THEN conjunct2, THEN conjunct1] s p v1 by simp
  have u: "the (updater_of ex_served) = fst ex_stored"
    and hw: "heap (world_of ex_served) (Own 0) = heap (snd ex_stored) (Own 0)"
    by (simp_all add: ex_defs run_defs updater_of_def ex_served_def)
  have cr: "cred (fst ex_stored) = Some (Own 0)"
    by (simp add: ex_defs run_defs)
  have q2': "cached (the (updater_of ex_served)) (world_of ex_served) =
      Some (ex_cred\<lparr>Expiration := \<lparr>wall = 63900000030000000000, mono = None\<rparr>\<rparr>)"
    using q2 u hw cr by (simp add: cached_def getCred_def)
  have q3: "cached (the (updater_of ex_fetched)) (world_of ex_fetched) =
        Some (ex_fresh\<lparr>Expiration := \<lparr>wall = 63900003570000000000, mono = None\<rparr>\<rparr>) \<and>
      cached (the (updater_of ex_fetched)) (store_at (Ext 1) ex_cred (world_of ex_fetched)) =
        cached (the (updater_of ex_fetched)) (world_of ex_fetched) \<and>
      served (Updater_Credentials (the (updater_of ex_fetched)) Background
             (store_at (Ext 1) ex_cred (world_of ex_fetched))) =
        served (Updater_Credentials (the (updater_of ex_fetched)) Background
             (world_of ex_fetched))"
    using t3 [THEN conjunct2, THEN conjunct2] c d g f h p v2 by simp
  from a b' q1 q2 q2' q3 show ?thesis by simp
qed

subsection \<open>The retry cycle of the background task\<close>

lemma sleeps_of_append: "sleeps_of (xs @ ys) = sleeps_of xs @ sleeps_of ys"
  by (induction xs rule: sleeps_of.induct) simp_all

lemma refreshCred_transient:
  assumes "getCredentials u = Some g" and "transient (g (ctx_Done ctx w) (calls w))"
  shows "\<exists>e. \<not> is_NotEnableError e \<and>
           refreshCred u ctx w =
             Inr (Some e, u,
                  w\<lparr>calls := Suc (calls w),
                    trace := trace w @ [EvFetch (calls w) (ctx_Done ctx w),
                                        EvError (logger_of u) e (RefreshFailed e)]\<rparr>)"
  using assms
  by (auto simp: refreshCred_def transient_def Let_def log_Error_def
      split: prod.splits option.splits)

lemma retry_loop_fails:
  assumes "getCredentials u = Some g"
    and "\<forall>b. \<forall>j<n. transient (g b (calls w + j))"
    and "i + n \<le> maxRetry"
  shows "\<exists>wn. retry_loop u ctx i w = retry_loop u ctx (i + n) wn \<and>
           calls wn = calls w + n \<and> heap wn = heap w \<and> nxt wn = nxt w \<and>
           sleeps_of (trace wn) =
             sleeps_of (trace w) @ map (\<lambda>j. Second * of_nat j) [i ..< min (i + n) (maxRetry - 1)] \<and>
           length (filter is_EvError (trace wn)) = length (filter is_EvError (trace w)) + n"
  using assms(2,3)
proof (induction n arbitrary: i w)
  case 0
  then show ?case by auto
next
  case (Suc n)
  from Suc.prems have i: "i < maxRetry" by simp
  from Suc.prems have "transient (g (ctx_Done ctx w) (calls w))"
    by (metis add.right_neutral zero_less_Suc)
  from refreshCred_transient [OF assms(1) this] obtain e where
    e: "\<not> is_NotEnableError e" and
    r: "refreshCred u ctx w =
          Inr (Some e, u,
               w\<lparr>calls := Suc (calls w),
                 trace := trace w @ [EvFetch (calls w) (ctx_Done ctx w),
                                     EvError (logger_of u) e (RefreshFailed e)]\<rparr>)"
    by blast
  define w1 where "w1 = w\<lparr>calls := Suc (calls w),
      trace := trace w @ [EvFetch (calls w) (ctx_Done ctx w),
                          EvError (logger_of u) e (RefreshFailed e)]\<rparr>"
  define w2 where "w2 = (if i < maxRetry - 1 then time_Sleep (Second * of_nat i) w1 else w1)"
  have step: "retry_loop u ctx i w = retry_loop u ctx (Suc i) w2"
    using i e r by (subst retry_loop.simps) (simp add: w1_def w2_def)
  have c2: "calls w2 = Suc (calls w)" and h2: "heap w2 = heap w" and n2: "nxt w2 = nxt w"
    by (simp_all add: w2_def w1_def time_Sleep_def)
  have s2: "sleeps_of (trace w2) =
      sleeps_of (trace w) @ (if i < maxRetry - 1 then [Second * of_nat i] else [])"
    by (simp add: w2_def w1_def time_Sleep_def sleeps_of_append)
  have l2: "length (filter is_EvError (trace w2)) = Suc (length (filter is_EvError (trace w)))"
    by (simp add: w2_def w1_def time_Sleep_def)
  have "\<forall>b. \<forall>j<n. transient (g b (calls w2 + j))"
    using Suc.prems(1) c2 by (metis Suc_less_eq add_Suc_shift)
  moreover have "Suc i + n \<le> maxRetry" using Suc.prems(2) by simp
  ultimately obtain wn where
    wn: "retry_loop u ctx (Suc i) w2 = retry_loop u ctx (Suc i + n) wn"
      "calls wn = calls w2 + n" "heap wn = heap w2" "nxt wn = nxt w2"
      "sleeps_of (trace wn) =
         sleeps_of (trace w2) @ map (\<lambda>j. Second * of_nat j) [Suc i ..< min (Suc i + n) (maxRetry - 1)]"
      "length (filter is_EvError (trace wn)) = length (filter is_EvError (trace w2)) + n"
    using Suc.IH [of w2 "Suc i"] by blast
  have "(if i < maxRetry - 1 then [Second * of_nat i] else []) @
      map (\<lambda>j. Second * of_nat j) [Suc i ..< min (Suc i + n) (maxRetry - 1)] =
      map (\<lambda>j. Second * of_nat j) [i ..< min (i + Suc n) (maxRetry - 1)]"
    by (auto simp: upt_conv_Cons)
  with step wn c2 h2 n2 s2 l2 show ?case
    by (intro exI [of _ wn]) simp
qed

lemma refreshCred_calls_le: "calls (world_of (refreshCred u ctx w)) \<le> Suc (calls w)"
  by (auto simp: refreshCred_def world_of_def Let_def log_Error_def log_Debug_def setCred_def
      split: prod.splits option.splits)

lemma retry_loop_calls_le:
  "calls (world_of (retry_loop u ctx i w)) \<le> calls w + (maxRetry - i)"
proof (induction u ctx i w rule: retry_loop.induct)
  case (1 u ctx i w)
  show ?case
  proof (cases "i < maxRetry")
    case False
    then show ?thesis
      by (subst retry_loop.simps) (simp add: world_of_def)
  next
    case True
    show ?thesis
    proof (cases "refreshCred u ctx w")
      case (Inl pw)
      with True refreshCred_calls_le [of u ctx w] show ?thesis
        by (subst retry_loop.simps) (simp add: world_of_def split: prod.splits)
    next
      case (Inr t)
      obtain x u' w' where t: "t = (x, u', w')" by (cases t)
      from Inr t refreshCred_calls_le [of u ctx w] have c: "calls w' \<le> Suc (calls w)"
        by (simp add: world_of_def)
      show ?thesis
      proof (cases x)
        case None
        with True Inr t c show ?thesis
          by (subst retry_loop.simps) (simp add: world_of_def)
      next
        case (Some e)
        show ?thesis
        proof (cases "is_NotEnableError e")
          case True
          with \<open>i < maxRetry\<close> Inr t c Some show ?thesis
            by (subst retry_loop.simps) (simp add: world_of_def)
        next
          case False
          let ?w2 = "if i < maxRetry - 1 then time_Sleep (Second * of_nat i) w' else w'"
          have "calls (world_of (retry_loop u' ctx (Suc i) ?w2)) \<le>
              calls ?w2 + (maxRetry - Suc i)"
            using "1.IH" [of t x "(u', w')" e u' w'] \<open>i < maxRetry\<close> Inr t Some False
            by simp
          moreover have "calls ?w2 = calls w'" by (simp add: time_Sleep_def)
          moreover have "retry_loop u ctx i w = retry_loop u' ctx (Suc i) ?w2"
            using \<open>i < maxRetry\<close> Inr t Some False by (subst retry_loop.simps) simp
          ultimately show ?thesis using c \<open>i < maxRetry\<close> by simp
        qed
      qed
    qed
  qed
qed

lemma retry_loop_stops:
  assumes "getCredentials u = Some g" and "\<not> transient (g (ctx_Done ctx w) (calls w))"
    and "i < maxRetry"
  shows "calls (world_of (retry_loop u ctx i w)) = Suc (calls w) \<and>
         sleeps_of (trace (world_of (retry_loop u ctx i w))) = sleeps_of (trace w)"
proof -
  obtain p err where pe: "g (ctx_Done ctx w) (calls w) = (p, err)"
    by (cases "g (ctx_Done ctx w) (calls w)")
  let ?w1 = "w\<lparr>calls := Suc (calls w),
      trace := trace w @ [EvFetch (calls w) (ctx_Done ctx w)]\<rparr>"
  consider (off) e where "err = Some e" "is_NotEnableError e"
    | (nil) "err = None" "p = None"
    | (ok) k where "err = None" "p = Some k"
    using assms(2) pe by (cases err; cases p) (auto simp: transient_def)
  then show ?thesis
  proof cases
    case off
    with assms(1) pe have "refreshCred u ctx w = Inr (Some e, u, ?w1)"
      by (simp add: refreshCred_def Let_def)
    with assms(3) off show ?thesis
      by (subst (1 2) retry_loop.simps) (simp add: world_of_def sleeps_of_append)
  next
    case nil
    with assms(1) pe have "refreshCred u ctx w = Inl (NilDeref, ?w1)"
      by (simp add: refreshCred_def Let_def)
    with assms(3) show ?thesis
      by (subst (1 2) retry_loop.simps) (simp add: world_of_def sleeps_of_append)
  next
    case ok
    with assms(1) pe have "\<exists>u' w'. refreshCred u ctx w = Inr (None, u', w') \<and>
        calls w' = Suc (calls w) \<and> sleeps_of (trace w') = sleeps_of (trace w)"
      by (simp add: refreshCred_def Let_def log_Debug_def setCred_def sleeps_of_append)
    then obtain u' w' where "refreshCred u ctx w = Inr (None, u', w')"
      "calls w' = Suc (calls w)" "sleeps_of (trace w') = sleeps_of (trace w)"
      by blast
    with assms(3) show ?thesis
      by (subst (1 2) retry_loop.simps) (simp add: world_of_def)
  qed
qed

text \<open>
  C4.  One cycle of \<^verbatim>\<open>refreshCredForLoop\<close> never invokes the fetch capability more than
  5 times.  When the cycle is entered and the first \<open>n \<le> 5\<close> attempts fail transiently
  (and, for \<open>n < 5\<close>, the next attempt does not: it succeeds, or fails terminally), the
  cycle makes \<open>min (n + 1) 5\<close> attempts and sleeps \<open>i\<close> seconds after the failed attempt
  \<open>i\<close> for \<open>i = 0, \<dots>, min n 4 - 1\<close>: with five failures the sleeps are 0, 1, 2, 3
  seconds and there is none after the fifth attempt; with a success at attempt \<open>n\<close> the
  cycle stops there.
\<close>

theorem retry_cycle_attempts_and_sleeps:
  "calls (world_of (refreshCredForLoop u ctx w)) \<le> calls w + 5 \<and>
   (getCredentials u = Some g \<and> expired u (expiryWindowForRefreshLoop u) w \<and> n \<le> 5 \<and>
    (\<forall>b. \<forall>j<n. transient (g b (calls w + j))) \<and>
    (n < 5 \<longrightarrow> (\<forall>b. \<not> transient (g b (calls w + n)))) \<longrightarrow>
      calls (world_of (refreshCredForLoop u ctx w)) = calls w + min (Suc n) 5 \<and>
      sleeps_of (trace (world_of (refreshCredForLoop u ctx w))) =
        sleeps_of (trace w) @ map (\<lambda>j. Second * of_nat j) [0 ..< min n 4])"
proof (intro conjI impI)
  let ?wl = "log_Debug u (StartRefresh (expiration u w)) w"
  have wl: "calls ?wl = calls w" "sleeps_of (trace ?wl) = sleeps_of (trace w)"
    by (simp_all add: log_Debug_def sleeps_of_append)
  show "calls (world_of (refreshCredForLoop u ctx w)) \<le> calls w + 5"
    using retry_loop_calls_le [of u ctx 0 ?wl] wl
    by (simp add: refreshCredForLoop_def Let_def world_of_def maxRetry_def)
  assume a: "getCredentials u = Some g \<and> expired u (expiryWindowForRefreshLoop u) w \<and>
    n \<le> 5 \<and> (\<forall>b. \<forall>j<n. transient (g b (calls w + j))) \<and>
    (n < 5 \<longrightarrow> (\<forall>b. \<not> transient (g b (calls w + n))))"
  then have g: "getCredentials u = Some g"
    and R: "refreshCredForLoop u ctx w = retry_loop u ctx 0 ?wl"
    and n: "0 + n \<le> maxRetry"
    and f: "\<forall>b. \<forall>j<n. transient (g b (calls ?wl + j))"
    by (simp_all add: refreshCredForLoop_def Let_def maxRetry_def wl)
  from retry_loop_fails [OF g f n, of ctx] obtain wn where
    wn: "retry_loop u ctx 0 ?wl = retry_loop u ctx n wn" "calls wn = calls w + n"
      "sleeps_of (trace wn) =
         sleeps_of (trace w) @ map (\<lambda>j. Second * of_nat j) [0 ..< min n 4]"
    by (auto simp: wl maxRetry_def)
  have "calls (world_of (retry_loop u ctx n wn)) = calls w + min (Suc n) 5 \<and>
      sleeps_of (trace (world_of (retry_loop u ctx n wn))) = sleeps_of (trace wn)"
  proof (cases "n < 5")
    case True
    with a wn(2) have "\<not> transient (g (ctx_Done ctx wn) (calls wn))" by simp
    from retry_loop_stops [OF g this] True wn(2) show ?thesis
      by (simp add: maxRetry_def)
  next
    case False
    with a have "n = 5" by simp
    with wn(2) show ?thesis
      by (subst (1 2) retry_loop.simps) (simp add: maxRetry_def world_of_def)
  qed
  with R wn show "calls (world_of (refreshCredForLoop u ctx w)) = calls w + min (Suc n) 5"
    and "sleeps_of (trace (world_of (refreshCredForLoop u ctx w))) =
      sleeps_of (trace w) @ map (\<lambda>j. Second * of_nat j) [0 ..< min n 4]"
    by simp_all
qed

theorem retry_cycle_attempts_and_sleeps_witness:
  "calls (world_of (refreshCredForLoop ex_flaky Background ex_late)) = 4 \<and>
   sleeps_of (trace (world_of (refreshCredForLoop ex_flaky Background ex_late))) =
     [0, 1000000000, 2000000000] \<and>
   calls (world_of (refreshCredForLoop ex_failing Background ex_late)) = 5 \<and>
   sleeps_of (trace (world_of (refreshCredForLoop ex_failing Background ex_late))) =
     [0, 1000000000, 2000000000, 3000000000]"
proof -
  have e1: "expired ex_flaky (expiryWindowForRefreshLoop ex_flaky) ex_late"
    and e2: "expired ex_failing (expiryWindowForRefreshLoop ex_failing) ex_late"
    and g1: "getCredentials ex_flaky = Some fetch_flaky"
    and g2: "getCredentials ex_failing = Some fetch_transient"
    and c: "calls ex_late = 0" "trace ex_late = []"
    by (simp_all add: ex_defs ex_failing_def fetch_transient_def run_defs Duration_div_def
        ex_flaky_def)
  have f1: "\<forall>b. \<forall>j<3. transient (fetch_flaky b (calls ex_late + j))"
    and s1: "\<forall>b. \<not> transient (fetch_flaky b (calls ex_late + 3))"
    and f2: "\<forall>b. \<forall>j<5. transient (fetch_transient b (calls ex_late + j))"
    by (simp_all add: fetch_flaky_def fetch_transient_def transient_def c)
  have u3: "[0 ..< 3] = [0, 1, 2::nat]" and u4: "[0 ..< 4] = [0, 1, 2, 3::nat]"
    by (simp_all add: upt_rec)
  show ?thesis
    using e1 e2 g1 g2 c f1 s1 f2
      retry_cycle_attempts_and_sleeps [of ex_flaky Background ex_late fetch_flaky 3]
      retry_cycle_attempts_and_sleeps [of ex_failing Background ex_late fetch_transient 5]
    by (simp add: u3 u4 Second_def)
qed

subsection \<open>The stored expiration\<close>

lemma refreshCredForLoop_success_after:
  assumes "expired u (expiryWindowForRefreshLoop u) w" and "getCredentials u = Some g"
    and "n < 5" and "\<forall>b. \<forall>j<n. transient (g b (calls w + j))"
    and "\<forall>b. g b (calls w + n) = (Some k, None)"
  shows "\<exists>w3 m. refreshCredForLoop u ctx w = Inr ((), u\<lparr>cred := Some (Own m)\<rparr>, w3) \<and>
         heap w3 (Own m) = heap (snd (setCred u (heap w (Ext k)) w)) (Own (nxt w))"
proof -
  let ?wl = "log_Debug u (StartRefresh (expiration u w)) w"
  have wl: "calls ?wl = calls w" "heap ?wl = heap w" "nxt ?wl = nxt w"
    by (simp_all add: log_Debug_def)
  have R: "refreshCredForLoop u ctx w = retry_loop u ctx 0 ?wl"
    using assms(1) by (simp add: refreshCredForLoop_def Let_def)
  have f: "\<forall>b. \<forall>j<n. transient (g b (calls ?wl + j))"
    using assms(4) by (simp add: wl)
  have n: "0 + n \<le> maxRetry" using assms(3) by (simp add: maxRetry_def)
  from retry_loop_fails [OF assms(2) f n, of ctx] obtain wn where
    wn: "retry_loop u ctx 0 ?wl = retry_loop u ctx n wn" "calls wn = calls w + n"
      "heap wn = heap w" "nxt wn = nxt w"
    by (auto simp: wl)
  from assms(5) wn(2) have "g (ctx_Done ctx wn) (calls wn) = (Some k, None)" by simp
  from refreshCred_success [OF assms(2) this] obtain w' where
    r: "refreshCred u ctx wn = Inr (None, u\<lparr>cred := Some (Own (nxt wn))\<rparr>, w')"
    and h: "heap w' (Own (nxt wn)) =
       heap (snd (setCred u (heap wn (Ext k)) wn)) (Own (nxt wn))"
    by blast
  have "retry_loop u ctx n wn = Inr ((), u\<lparr>cred := Some (Own (nxt wn))\<rparr>, w')"
    using assms(3) r by (subst retry_loop.simps) (simp add: maxRetry_def)
  moreover have "heap (snd (setCred u (heap wn (Ext k)) wn)) (Own (nxt wn)) =
      heap (snd (setCred u (heap w (Ext k)) w)) (Own (nxt w))"
    using wn(3,4) by (simp add: setCred_def Let_def)
  ultimately show ?thesis using R wn(1) h by auto
qed

text \<open>
  C7, as the code has it.  Under an expiry window \<open>W \<ge> 0\<close>, whatever stores a credential
  stores it with the expiration \<^verbatim>\<open>raw.Round(0).Add(-W)\<close>: the raw expiration stripped of
  its monotonic clock reading, minus \<open>W\<close>.  \<^verbatim>\<open>Round(0)\<close> leaves the wall instant as it
  is, the fraction of a second included, so the stored instant is \<open>raw - W\<close> to the
  nanosecond.  This holds for \<^verbatim>\<open>setCred\<close>, the only operation that stores; for a
  refreshing call of \<^verbatim>\<open>Credentials(ctx)\<close>, whose returned credential carries that
  expiration; for a background cycle that succeeds at any of its attempts, after
  \<open>n < 5\<close> transient failures; and for every successful run of \<^verbatim>\<open>refreshCred\<close>, the
  routine through which both paths refresh.  A credential served from the cache carries
  the stored expiration.
\<close>

theorem stored_expiration_adjusted:
  assumes W: "0 \<le> sint (expiryWindow u)"
  shows
   "(setCred u c w = (ua, wa) \<longrightarrow>
       map_option Expiration (cached ua wa) =
         Some (Time_Add (Time_Round (Expiration c) 0) (- expiryWindow u))) \<and>
    (Expired u w \<and> getCredentials u = Some g \<and>
     g (ctx_Done ctx w) (calls w) = (Some k, None) \<longrightarrow>
       (\<exists>r u2 w2. Updater_Credentials u ctx w = Inr ((Some r, None), u2, w2) \<and>
          Expiration (heap w2 r) =
            Time_Add (Time_Round (Expiration (heap w (Ext k))) 0) (- expiryWindow u) \<and>
          map_option Expiration (cached u2 w2) =
            Some (Time_Add (Time_Round (Expiration (heap w (Ext k))) 0) (- expiryWindow u)))) \<and>
    (expired u (expiryWindowForRefreshLoop u) w \<and> getCredentials u = Some g \<and> n < 5 \<and>
     (\<forall>b. \<forall>j<n. transient (g b (calls w + j))) \<and>
     (\<forall>b. g b (calls w + n) = (Some k, None)) \<longrightarrow>
       (\<exists>u3 w3. refreshCredForLoop u ctx w = Inr ((), u3, w3) \<and>
          map_option Expiration (cached u3 w3) =
            Some (Time_Add (Time_Round (Expiration (heap w (Ext k))) 0) (- expiryWindow u)))) \<and>
    (\<not> Expired u w \<and> Updater_Credentials u ctx w = Inr ((Some rd, e), ud, wd) \<longrightarrow>
       Some (Expiration (heap wd rd)) = map_option Expiration (cached u w)) \<and>
    Time_Add (Time_Round E 0) (- expiryWindow u) =
      \<lparr>wall = wall E - sint (expiryWindow u), mono = None\<rparr> \<and>
    (getCredentials u = Some g \<and> g (ctx_Done ctx w) (calls w) = (Some k, None) \<longrightarrow>
       (\<exists>ub wb. refreshCred u ctx w = Inr (None, ub, wb) \<and>
          map_option Expiration (cached ub wb) =
            Some (Time_Add (Time_Round (Expiration (heap w (Ext k))) 0) (- expiryWindow u))))"
proof (intro conjI impI)
  assume s: "setCred u c w = (ua, wa)"
  then have "cred ua = Some (Own (nxt w))" by (rule setCred_cred)
  moreover have "Expiration (heap wa (Own (nxt w))) =
      Time_Add (Time_Round (Expiration c) 0) (- expiryWindow u)"
    using setCred_stored_value [OF W, of c w] s by simp
  ultimately show "map_option Expiration (cached ua wa) =
      Some (Time_Add (Time_Round (Expiration c) 0) (- expiryWindow u))"
    by (simp add: cached_def getCred_def)
next
  assume "Expired u w \<and> getCredentials u = Some g \<and>
     g (ctx_Done ctx w) (calls w) = (Some k, None)"
  then obtain w2 where
    "Updater_Credentials u ctx w =
       Inr ((Some (Own (Suc (nxt w))), None), u\<lparr>cred := Some (Own (nxt w))\<rparr>, w2)"
    and "heap w2 (Own (Suc (nxt w))) = heap w2 (Own (nxt w))"
    and "heap w2 (Own (nxt w)) = heap (snd (setCred u (heap w (Ext k)) w)) (Own (nxt w))"
    using Credentials_after_refresh [of u w g ctx k] by blast
  then show "\<exists>r u2 w2. Updater_Credentials u ctx w = Inr ((Some r, None), u2, w2) \<and>
          Expiration (heap w2 r) =
            Time_Add (Time_Round (Expiration (heap w (Ext k))) 0) (- expiryWindow u) \<and>
          map_option Expiration (cached u2 w2) =
            Some (Time_Add (Time_Round (Expiration (heap w (Ext k))) 0) (- expiryWindow u))"
    using setCred_stored_value [OF W, of "heap w (Ext k)" w]
    by (simp add: cached_def getCred_def)
next
  assume a: "expired u (expiryWindowForRefreshLoop u) w \<and> getCredentials u = Some g \<and>
     n < 5 \<and> (\<forall>b. \<forall>j<n. transient (g b (calls w + j))) \<and>
     (\<forall>b. g b (calls w + n) = (Some k, None))"
  then have "expired u (expiryWindowForRefreshLoop u) w" and "getCredentials u = Some g"
    and "n < 5" and "\<forall>b. \<forall>j<n. transient (g b (calls w + j))"
    and "\<forall>b. g b (calls w + n) = (Some k, None)"
    by simp_all
  from refreshCredForLoop_success_after [OF this, of ctx] obtain w3 m where
    "refreshCredForLoop u ctx w = Inr ((), u\<lparr>cred := Some (Own m)\<rparr>, w3)"
    and "heap w3 (Own m) = heap (snd (setCred u (heap w (Ext k)) w)) (Own (nxt w))"
    by blast
  then show "\<exists>u3 w3. refreshCredForLoop u ctx w = Inr ((), u3, w3) \<and>
          map_option Expiration (cached u3 w3) =
            Some (Time_Add (Time_Round (Expiration (heap w (Ext k))) 0) (- expiryWindow u))"
    using setCred_stored_value [OF W, of "heap w (Ext k)" w]
    by (simp add: cached_def getCred_def)
next
  assume "\<not> Expired u w \<and> Updater_Credentials u ctx w = Inr ((Some rd, e), ud, wd)"
  then show "Some (Expiration (heap wd rd)) = map_option Expiration (cached u w)"
    by (auto simp: Updater_Credentials_def copy_out_def cached_def getCred_def Let_def
        DeepCopy_id split: option.splits)
next
  show "Time_Add (Time_Round E 0) (- expiryWindow u) =
      \<lparr>wall = wall E - sint (expiryWindow u), mono = None\<rparr>"
    using W by (rule stored_Time_Add)
next
  assume "getCredentials u = Some g \<and> g (ctx_Done ctx w) (calls w) = (Some k, None)"
  then obtain wb where
    "refreshCred u ctx w = Inr (None, u\<lparr>cred := Some (Own (nxt w))\<rparr>, wb)"
    and "heap wb (Own (nxt w)) = heap (snd (setCred u (heap w (Ext k)) w)) (Own (nxt w))"
    using refreshCred_success [of u g ctx w k] by blast
  then show "\<exists>ub wb. refreshCred u ctx w = Inr (None, ub, wb) \<and>
          map_option Expiration (cached ub wb) =
            Some (Time_Add (Time_Round (Expiration (heap w (Ext k))) 0) (- expiryWindow u))"
    using setCred_stored_value [OF W, of "heap w (Ext k)" w]
    by (simp add: cached_def getCred_def)
qed

text \<open>
  The stored example credential (60 s ahead, window 30 s); the fresher one a refresh
  fetches (3600 s ahead), on both paths, in the background also at the fourth attempt
  after three transient failures; and the credential with the half second.
\<close>

theorem stored_expiration_adjusted_witness:
  "0 \<le> sint (expiryWindow ex_upd) \<and>
   map_option Expiration (cached (fst ex_stored) (snd ex_stored)) =
     Some \<lparr>wall = 63900000030000000000, mono = None\<rparr> \<and>
   (\<exists>r u2 w2. Updater_Credentials (fst ex_stored) Background ex_late =
        Inr ((Some r, None), u2, w2) \<and>
      Expiration (heap w2 r) = \<lparr>wall = 63900003570000000000, mono = None\<rparr> \<and>
      map_option Expiration (cached u2 w2) =
        Some \<lparr>wall = 63900003570000000000, mono = None\<rparr>) \<and>
   (\<exists>u3 w3. refreshCredForLoop (fst ex_stored) Background ex_late = Inr ((), u3, w3) \<and>
      map_option Expiration (cached u3 w3) =
        Some \<lparr>wall = 63900003570000000000, mono = None\<rparr>) \<and>
   (\<exists>u3 w3. refreshCredForLoop ex_flaky Background ex_late = Inr ((), u3, w3) \<and>
      map_option Expiration (cached u3 w3) =
        Some \<lparr>wall = 63900003570000000000, mono = None\<rparr>) \<and>
   Expiration (heap (world_of ex_served) (Own 1)) =
     \<lparr>wall = 63900000030000000000, mono = None\<rparr> \<and>
   (\<exists>ub wb. refreshCred (fst ex_stored) Background ex_late = Inr (None, ub, wb) \<and>
      map_option Expiration (cached ub wb) =
        Some \<lparr>wall = 63900003570000000000, mono = None\<rparr>) \<and>
   map_option Expiration
       (cached (fst (setCred ex_upd ex_half ex_world)) (snd (setCred ex_upd ex_half ex_world))) =
     Some \<lparr>wall = 63900000030500000000, mono = None\<rparr>"
proof -
  have w: "0 \<le> sint (expiryWindow ex_upd)"
    and w': "0 \<le> sint (expiryWindow (fst ex_stored))"
    and w'': "0 \<le> sint (expiryWindow ex_flaky)"
    by (simp_all add: ex_defs run_defs ex_flaky_def)
  have s: "setCred ex_upd ex_cred ex_world = (fst ex_stored, snd ex_stored)"
    by (simp add: ex_stored_def)
  have e: "Expired (fst ex_stored) ex_late"
    and l: "expired (fst ex_stored) (expiryWindowForRefreshLoop (fst ex_stored)) ex_late"
    and l': "expired ex_flaky (expiryWindowForRefreshLoop ex_flaky) ex_late"
    and n: "\<not> Expired (fst ex_stored) (snd ex_stored)"
    and g: "getCredentials (fst ex_stored) = Some fetch_ok"
    and g': "getCredentials ex_flaky = Some fetch_flaky"
    and f: "fetch_ok (ctx_Done Background ex_late) (calls ex_late) = (Some 1, None)"
    and c: "calls ex_late = 0"
    by (simp_all add: ex_defs run_defs Duration_div_def ex_flaky_def)
  have f0: "\<forall>b. \<forall>j<0. transient (fetch_ok b (calls ex_late + j))"
    and f0': "\<forall>b. fetch_ok b (calls ex_late + 0) = (Some 1, None)"
    and f3: "\<forall>b. \<forall>j<3. transient (fetch_flaky b (calls ex_late + j))"
    and f3': "\<forall>b. fetch_flaky b (calls ex_late + 3) = (Some 1, None)"
    by (simp_all add: fetch_ok_def fetch_flaky_def transient_def c)
  have b: "Updater_Credentials (fst ex_stored) Background (snd ex_stored) =
      Inr ((Some (Own 1), None), the (updater_of ex_served), world_of ex_served)"
    by (simp add: ex_defs run_defs updater_of_def ex_served_def)
  have v1: "Time_Add (Time_Round (Expiration ex_cred) 0) (- expiryWindow ex_upd) =
      \<lparr>wall = 63900000030000000000, mono = None\<rparr>"
    and v2: "Time_Add (Time_Round (Expiration (heap ex_late (Ext 1))) 0)
        (- expiryWindow (fst ex_stored)) = \<lparr>wall = 63900003570000000000, mono = None\<rparr>"
    and v3: "Time_Add (Time_Round (Expiration (heap ex_late (Ext 1))) 0)
        (- expiryWindow ex_flaky) = \<lparr>wall = 63900003570000000000, mono = None\<rparr>"
    and v4: "Time_Add (Time_Round (Expiration ex_half) 0) (- expiryWindow ex_upd) =
      \<lparr>wall = 63900000030500000000, mono = None\<rparr>"
    by (simp_all add: ex_defs run_defs ex_flaky_def ex_half_def)
  note t1 = stored_expiration_adjusted [OF w, where c = ex_cred and w = ex_world
      and ua = "fst ex_stored" and wa = "snd ex_stored"]
  note t2 = stored_expiration_adjusted [OF w', where w = ex_late and g = fetch_ok
      and ctx = Background and k = 1 and n = 0]
  note t3 = stored_expiration_adjusted [OF w', where w = "snd ex_stored"
      and ctx = Background and rd = "Own 1" and e = None
      and ud = "the (updater_of ex_served)" and wd = "world_of ex_served"]
  note t4 = stored_expiration_adjusted [OF w'', where w = ex_late and g = fetch_flaky
      and ctx = Background and k = 1 and n = 3]
  note t5 = stored_expiration_adjusted [OF w, where c = ex_half and w = ex_world
      and ua = "fst (setCred ex_upd ex_half ex_world)"
      and wa = "snd (setCred ex_upd ex_half ex_world)"]
  have p1: "map_option Expiration (cached (fst ex_stored) (snd ex_stored)) =
      Some \<lparr>wall = 63900000030000000000, mono = None\<rparr>"
    using t1 [THEN conjunct1] s v1 by simp
  have p2: "\<exists>r u2 w2. Updater_Credentials (fst ex_stored) Background ex_late =
        Inr ((Some r, None), u2, w2) \<and>
      Expiration (heap w2 r) = \<lparr>wall = 63900003570000000000, mono = None\<rparr> \<and>
      map_option Expiration (cached u2 w2) =
        Some \<lparr>wall = 63900003570000000000, mono = None\<rparr>"
    using t2 [THEN conjunct2, THEN conjunct1] e g f v2 by simp
  have p3: "\<exists>u3 w3. refreshCredForLoop (fst ex_stored) Background ex_late = Inr ((), u3, w3) \<and>
      map_option Expiration (cached u3 w3) =
        Some \<lparr>wall = 63900003570000000000, mono = None\<rparr>"
    using t2 [THEN conjunct2, THEN conjunct2, THEN conjunct1] l g f0 f0' v2 by simp
  have p3': "\<exists>u3 w3. refreshCredForLoop ex_flaky Background ex_late = Inr ((), u3, w3) \<and>
      map_option Expiration (cached u3 w3) =
        Some \<lparr>wall = 63900003570000000000, mono = None\<rparr>"
    using t4 [THEN conjunct2, THEN conjunct2, THEN conjunct1] l' g' f3 f3' v3 by simp
  have p4: "Expiration (heap (world_of ex_served) (Own 1)) =
      \<lparr>wall = 63900000030000000000, mono = None\<rparr>"
    using t3 [THEN conjunct2, THEN conjunct2, THEN conjunct2, THEN conjunct1] n b p1 by simp
  have p5: "\<exists>ub wb. refreshCred (fst ex_stored) Background ex_late = Inr (None, ub, wb) \<and>
      map_option Expiration (cached ub wb) =
        Some \<lparr>wall = 63900003570000000000, mono = None\<rparr>"
    using t2 [THEN conjunct2, THEN conjunct2, THEN conjunct2, THEN conjunct2, THEN conjunct2]
      g f v2 by simp
  have p6: "map_option Expiration
       (cached (fst (setCred ex_upd ex_half ex_world)) (snd (setCred ex_upd ex_half ex_world))) =
     Some \<lparr>wall = 63900000030500000000, mono = None\<rparr>"
    using t5 [THEN conjunct1] v4 by simp
  from w p1 p2 p3 p3' p4 p5 p6 show ?thesis by blast
qed

text \<open>
  C7 as stated fails where it says that the normalisation strips the fraction of a
  second.  A raw expiration 60.5 s after the example instant is stored, under the window
  of 30 s, as the instant 30.5 s after it: the half second is still there, and the stored
  expiration is not the raw one with its fraction stripped, minus the window.
\<close>

theorem stored_fraction_kept_counterexample:
  "map_option Expiration
       (cached (fst (setCred ex_upd ex_half ex_world)) (snd (setCred ex_upd ex_half ex_world))) =
     Some \<lparr>wall = 63900000030500000000, mono = None\<rparr> \<and>
   Time_Add (spec_normalized (Expiration ex_half)) (- expiryWindow ex_upd) =
     \<lparr>wall = 63900000030000000000, mono = None\<rparr> \<and>
   map_option Expiration
       (cached (fst (setCred ex_upd ex_half ex_world)) (snd (setCred ex_upd ex_half ex_world))) \<noteq>
     Some (Time_Add (spec_normalized (Expiration ex_half)) (- expiryWindow ex_upd))"
  by (simp add: ex_defs run_defs ex_half_def cached_def spec_normalized_def)

subsection \<open>Terminal errors in the background task\<close>

lemma refreshCredForLoop_terminal:
  assumes "getCredentials u = Some g" and "expired u (expiryWindowForRefreshLoop u) w"
    and "terminal (g (ctx_Done ctx w) (calls w))"
  shows "refreshCredForLoop u ctx w =
     Inr ((), u, w\<lparr>calls := Suc (calls w),
                   trace := trace w @ [EvDebug (logger_of u) (StartRefresh (expiration u w)),
                                       EvFetch (calls w) (ctx_Done ctx w)]\<rparr>)"
proof -
  let ?wl = "log_Debug u (StartRefresh (expiration u w)) w"
  obtain p err where pe: "g (ctx_Done ctx w) (calls w) = (p, err)"
    by (cases "g (ctx_Done ctx w) (calls w)")
  with assms(3) obtain e where e: "err = Some e" "is_NotEnableError e"
    by (cases err) (auto simp: terminal_def)
  have d: "ctx_Done ctx ?wl = ctx_Done ctx w"
    by (cases ctx) (simp_all add: log_Debug_def)
  have "refreshCred u ctx ?wl =
      Inr (Some e, u, ?wl\<lparr>calls := Suc (calls ?wl),
             trace := trace ?wl @ [EvFetch (calls ?wl) (ctx_Done ctx ?wl)]\<rparr>)"
    using assms(1) pe e d by (simp add: refreshCred_def Let_def) (simp add: log_Debug_def)
  with assms(2) e d show ?thesis
    by (simp add: refreshCredForLoop_def Let_def retry_loop.simps [of _ _ 0] maxRetry_def)
      (simp add: log_Debug_def)
qed

lemma expired_without_credential:
  assumes "cred u = None" and "now u w = clock w" and "2 ^ 63 \<le> wall (clock w)"
  shows "expired u d w"
proof -
  have "sint (- d) < 2 ^ 63" using sint_lt [of "- d"] by simp
  with assms show ?thesis
    by (simp add: expired_iff expiration_def getCred_def Time_zero_def)
qed

lemma select_loop_terminal:
  assumes "getCredentials u = Some g" and "\<forall>b n. terminal (g b n)"
    and "cred u = None" and "\<forall>w. now u w = clock w"
    and "2 ^ 63 \<le> wall (clock w)"
  shows "\<exists>w'. select_loop pick u Background ticks w = Inr (Waiting, u, w') \<and>
          calls w' = calls w + length ticks \<and> heap w' = heap w \<and>
          filter is_EvError (trace w') = filter is_EvError (trace w)"
  using assms(5)
proof (induction ticks arbitrary: w)
  case Nil
  then show ?case by simp
next
  case (Cons T ts)
  let ?w1 = "wait_until T w"
  have c1: "2 ^ 63 \<le> wall (clock ?w1)" using Cons.prems by (simp add: wait_until_def)
  have e: "expired u (expiryWindowForRefreshLoop u) ?w1"
    using assms(3,4) c1 by (intro expired_without_credential) simp_all
  let ?w2 = "?w1\<lparr>calls := Suc (calls ?w1),
      trace := trace ?w1 @ [EvDebug (logger_of u) (StartRefresh (expiration u ?w1)),
                            EvFetch (calls ?w1) (ctx_Done Background ?w1)]\<rparr>"
  have t: "terminal (g (ctx_Done Background ?w1) (calls ?w1))"
    using assms(2) by blast
  have r: "refreshCredForLoop u Background ?w1 = Inr ((), u, ?w2)"
    using assms(1) e t by (rule refreshCredForLoop_terminal)
  have "2 ^ 63 \<le> wall (clock ?w2)" using c1 by simp
  from Cons.IH [OF this] obtain w' where
    w': "select_loop pick u Background ts ?w2 = Inr (Waiting, u, w')"
      "calls w' = calls ?w2 + length ts" "heap w' = heap ?w2"
      "filter is_EvError (trace w') = filter is_EvError (trace ?w2)"
    by blast
  have "select_loop pick u Background (T # ts) w = select_loop pick u Background ts ?w2"
    using r by simp
  with w' show ?case
    by (intro exI [of _ w']) (simp add: wait_until_def)
qed

lemma retry_loop_terminal:
  assumes "getCredentials u = Some g" and "terminal (g (ctx_Done ctx w) (calls w))"
    and "i < maxRetry"
  shows "retry_loop u ctx i w =
     Inr ((), u, w\<lparr>calls := Suc (calls w),
                   trace := trace w @ [EvFetch (calls w) (ctx_Done ctx w)]\<rparr>)"
proof -
  obtain p err where pe: "g (ctx_Done ctx w) (calls w) = (p, err)"
    by (cases "g (ctx_Done ctx w) (calls w)")
  with assms(2) obtain e where e: "err = Some e" "is_NotEnableError e"
    by (cases err) (auto simp: terminal_def)
  have "refreshCred u ctx w =
      Inr (Some e, u, w\<lparr>calls := Suc (calls w),
             trace := trace w @ [EvFetch (calls w) (ctx_Done ctx w)]\<rparr>)"
    using assms(1) pe e by (simp add: refreshCred_def Let_def)
  with assms(3) e show ?thesis
    by (subst retry_loop.simps) simp
qed

text \<open>
  C5.  In a cycle of the background task, a fetch error of the \<^verbatim>\<open>*NotEnableError\<close> kind
  ends the cycle at once, at whichever attempt it comes (after \<open>n < 5\<close> transient
  failures): the cycle has made \<open>n + 1\<close> attempts, the last event of its trace is that
  attempt (no log line and no sleep follow it; the only error lines are the \<open>n\<close> of
  the transient failures), the Updater and every stored object are unchanged.  The task
  goes on: an Updater made by \<^verbatim>\<open>NewUpdater\<close> with a positive refresh period and a
  fetch capability that always fails terminally, run on a clock later than \<open>2^63\<close> ns
  after the zero Time with a context that is never cancelled, makes one attempt at start
  and one attempt per tick over any list of ticks, logs no error, and is still waiting
  for the next tick afterwards.
\<close>

theorem terminal_error_ends_cycle:
  "(getCredentials u = Some g \<and> expired u (expiryWindowForRefreshLoop u) w \<and> n < 5 \<and>
    (\<forall>b. \<forall>j<n. transient (g b (calls w + j))) \<and> (\<forall>b. terminal (g b (calls w + n))) \<longrightarrow>
      (\<exists>w' t c. refreshCredForLoop u ctx w = Inr ((), u, w') \<and>
         calls w' = calls w + Suc n \<and> heap w' = heap w \<and> nxt w' = nxt w \<and>
         trace w' = t @ [EvFetch (calls w + n) c] \<and>
         length (filter is_EvError t) = length (filter is_EvError (trace w)) + n)) \<and>
   ((\<forall>b n. terminal (g b n)) \<and> 0 <s RefreshPeriod opts \<and> 2 ^ 63 \<le> wall (clock w) \<longrightarrow>
      (\<exists>w'. startRefreshLoop pick (NewUpdater (Some g) opts) Background ticks w =
               Inr (Waiting, NewUpdater (Some g) opts, w') \<and>
             calls w' = calls w + Suc (length ticks) \<and> heap w' = heap w \<and>
             filter is_EvError (trace w') = filter is_EvError (trace w)))"
proof (intro conjI impI)
  let ?wl = "log_Debug u (StartRefresh (expiration u w)) w"
  assume a: "getCredentials u = Some g \<and> expired u (expiryWindowForRefreshLoop u) w \<and>
    n < 5 \<and> (\<forall>b. \<forall>j<n. transient (g b (calls w + j))) \<and>
    (\<forall>b. terminal (g b (calls w + n)))"
  then have g: "getCredentials u = Some g"
    and R: "refreshCredForLoop u ctx w = retry_loop u ctx 0 ?wl"
    and n: "0 + n \<le> maxRetry"
    and f: "\<forall>b. \<forall>j<n. transient (g b (calls ?wl + j))"
    by (simp_all add: refreshCredForLoop_def Let_def maxRetry_def log_Debug_def)
  from retry_loop_fails [OF g f n, of ctx] obtain wn where
    wn: "retry_loop u ctx 0 ?wl = retry_loop u ctx n wn" "calls wn = calls w + n"
      "heap wn = heap w" "nxt wn = nxt w"
      "length (filter is_EvError (trace wn)) = length (filter is_EvError (trace w)) + n"
    by (auto simp: log_Debug_def)
  from a wn(2) have "terminal (g (ctx_Done ctx wn) (calls wn))" by simp
  from retry_loop_terminal [OF g this, of n] a
  have "retry_loop u ctx n wn =
      Inr ((), u, wn\<lparr>calls := Suc (calls wn),
             trace := trace wn @ [EvFetch (calls wn) (ctx_Done ctx wn)]\<rparr>)"
    by (simp add: maxRetry_def)
  with R wn show "\<exists>w' t c. refreshCredForLoop u ctx w = Inr ((), u, w') \<and>
         calls w' = calls w + Suc n \<and> heap w' = heap w \<and> nxt w' = nxt w \<and>
         trace w' = t @ [EvFetch (calls w + n) c] \<and>
         length (filter is_EvError t) = length (filter is_EvError (trace w)) + n"
    by simp
next
  let ?u = "NewUpdater (Some g) opts"
  assume a: "(\<forall>b n. terminal (g b n)) \<and> 0 <s RefreshPeriod opts \<and> 2 ^ 63 \<le> wall (clock w)"
  have g: "getCredentials ?u = Some g" and c: "cred ?u = None"
    and n: "\<forall>w. now ?u w = clock w"
    by (simp_all add: NewUpdater_def now_def time_Now_def)
  from a have p: "\<not> refreshPeriod ?u \<le>s 0"
    by (simp add: NewUpdater_def word_sless_alt word_sle_eq)
  have e: "expired ?u (expiryWindowForRefreshLoop ?u) w"
    using c n a by (intro expired_without_credential) (simp_all del: One_nat_def)
  have t: "terminal (g (ctx_Done Background w) (calls w))" using a by blast
  let ?w2 = "w\<lparr>calls := Suc (calls w),
      trace := trace w @ [EvDebug (logger_of ?u) (StartRefresh (expiration ?u w)),
                          EvFetch (calls w) (ctx_Done Background w)]\<rparr>"
  have r: "refreshCredForLoop ?u Background w = Inr ((), ?u, ?w2)"
    using g e t by (rule refreshCredForLoop_terminal)
  have "2 ^ 63 \<le> wall (clock ?w2)" using a by simp
  with g a c n obtain w' where
    w': "select_loop pick ?u Background ticks ?w2 = Inr (Waiting, ?u, w')"
      "calls w' = calls ?w2 + length ticks" "heap w' = heap ?w2"
      "filter is_EvError (trace w') = filter is_EvError (trace ?w2)"
    using select_loop_terminal [of ?u g ?w2 pick ticks] by blast
  have "startRefreshLoop pick ?u Background ticks w =
      select_loop pick ?u Background ticks ?w2"
    using p r by (simp add: startRefreshLoop_def)
  with w' show "\<exists>w'. startRefreshLoop pick ?u Background ticks w = Inr (Waiting, ?u, w') \<and>
      calls w' = calls w + Suc (length ticks) \<and> heap w' = heap w \<and>
      filter is_EvError (trace w') = filter is_EvError (trace w)"
    by (intro exI [of _ w']) simp
qed

text \<open>
  A terminal error at the first attempt, one after two transient failures, and ten ticks
  of a task whose fetch capability always fails terminally.
\<close>

theorem terminal_error_ends_cycle_witness:
  "(\<exists>w' t c. refreshCredForLoop ex_disabled Background ex_late = Inr ((), ex_disabled, w') \<and>
      calls w' = 1 \<and> heap w' = heap ex_late \<and> nxt w' = nxt ex_late \<and>
      trace w' = t @ [EvFetch 0 c] \<and> length (filter is_EvError t) = 0) \<and>
   (\<exists>w' t c. refreshCredForLoop ex_then_off Background ex_late = Inr ((), ex_then_off, w') \<and>
      calls w' = 3 \<and> heap w' = heap ex_late \<and> nxt w' = nxt ex_late \<and>
      trace w' = t @ [EvFetch 2 c] \<and> length (filter is_EvError t) = 2) \<and>
   (\<exists>w'. startRefreshLoop (\<lambda>n. False) (NewUpdater (Some fetch_terminal) ex_opts) Background
             ex_ticks ex_world =
            Inr (Waiting, NewUpdater (Some fetch_terminal) ex_opts, w') \<and>
          calls w' = 11 \<and> heap w' = heap ex_world \<and> filter is_EvError (trace w') = [])"
proof -
  have g: "getCredentials ex_disabled = Some fetch_terminal"
    "getCredentials ex_then_off = Some fetch_then_off"
    and e: "expired ex_disabled (expiryWindowForRefreshLoop ex_disabled) ex_late"
    "expired ex_then_off (expiryWindowForRefreshLoop ex_then_off) ex_late"
    and l: "calls ex_late = 0" "trace ex_late = []"
    by (simp_all add: ex_defs ex_disabled_def fetch_terminal_def run_defs Duration_div_def
        ex_then_off_def)
  have f0: "\<forall>b. \<forall>j<0. transient (fetch_terminal b (calls ex_late + j))"
    and f2: "\<forall>b. \<forall>j<2. transient (fetch_then_off b (calls ex_late + j))"
    and t2: "\<forall>b. terminal (fetch_then_off b (calls ex_late + 2))"
    and a: "\<forall>b n. terminal (fetch_terminal b n)"
    by (simp_all add: fetch_terminal_def fetch_then_off_def terminal_def transient_def l)
  have p: "0 <s RefreshPeriod ex_opts"
    and c: "2 ^ 63 \<le> wall (clock ex_world)" "calls ex_world = 0" "trace ex_world = []"
    and n: "length ex_ticks = 10"
    by (simp_all add: ex_defs ex_disabled_def fetch_terminal_def word_sless_alt ex_ticks_def)
  note t1 = terminal_error_ends_cycle [where u = ex_disabled and g = fetch_terminal
      and w = ex_late and n = 0 and ctx = Background]
  note t2' = terminal_error_ends_cycle [where u = ex_then_off and g = fetch_then_off
      and w = ex_late and n = 2 and ctx = Background]
  note t3 = terminal_error_ends_cycle [where g = fetch_terminal and w = ex_world
      and opts = ex_opts and pick = "\<lambda>n. False" and ticks = ex_ticks]
  have p1: "\<exists>w' t c. refreshCredForLoop ex_disabled Background ex_late =
        Inr ((), ex_disabled, w') \<and>
      calls w' = 1 \<and> heap w' = heap ex_late \<and> nxt w' = nxt ex_late \<and>
      trace w' = t @ [EvFetch 0 c] \<and> length (filter is_EvError t) = 0"
    using t1 [THEN conjunct1] g e f0 a l by simp
  have p2: "\<exists>w' t c. refreshCredForLoop ex_then_off Background ex_late =
        Inr ((), ex_then_off, w') \<and>
      calls w' = 3 \<and> heap w' = heap ex_late \<and> nxt w' = nxt ex_late \<and>
      trace w' = t @ [EvFetch 2 c] \<and> length (filter is_EvError t) = 2"
    using t2' [THEN conjunct1] g e f2 t2 l by (simp add: numeral_2_eq_2 numeral_3_eq_3)
  have p3: "\<exists>w'. startRefreshLoop (\<lambda>n. False) (NewUpdater (Some fetch_terminal) ex_opts)
        Background ex_ticks ex_world =
            Inr (Waiting, NewUpdater (Some fetch_terminal) ex_opts, w') \<and>
          calls w' = 11 \<and> heap w' = heap ex_world \<and> filter is_EvError (trace w') = []"
    using t3 [THEN conjunct2] a p c n by simp
  from p1 p2 p3 show ?thesis by blast
qed

subsection \<open>The window of the background task\<close>

lemma sint_nonneg_neg: "0 \<le> sint (d::Duration) \<Longrightarrow> sint (- d) = - sint d"
proof (cases "d = 0")
  case True
  then show ?thesis by simp
next
  case False
  assume "0 \<le> sint d"
  with False have "0 < sint d"
    using signed_eq_0_iff [of d, where ?'a = int] by (simp add: order_le_less)
  then show ?thesis
    by (intro sint_neg_pos) (simp add: word_sless_alt)
qed

lemma loop_window_sint:
  assumes "0 \<le> sint (P::Duration)" and "sint P < 2 ^ 62"
  shows "sint (P + Duration_div P 2) = sint P + sint P div 2"
proof -
  have d: "sint P sdiv 2 = sint P div 2"
    using assms(1) by (simp add: signed_divide_int_def sgn_if)
  have "- (2 ^ 63) \<le> sint P div 2" and "sint P div 2 < 2 ^ 63"
    using assms by simp_all
  then have h: "sint (Duration_div P 2) = sint P div 2"
    by (simp add: Duration_div_def d sint_sbintrunc' signed_take_bit_int_eq_self)
  have "- (2 ^ 63) \<le> sint P + sint P div 2" and "sint P + sint P div 2 < 2 ^ 63"
    using assms by simp_all
  then show ?thesis
    by (simp add: sint_word_add h signed_take_bit_int_eq_self)
qed

lemma refreshCred_calls_ge: "calls w \<le> calls (world_of (refreshCred u ctx w))"
  by (auto simp: refreshCred_def world_of_def Let_def log_Error_def log_Debug_def setCred_def
      split: prod.splits option.splits)

lemma retry_loop_calls_ge: "calls w \<le> calls (world_of (retry_loop u ctx i w))"
proof (induction u ctx i w rule: retry_loop.induct)
  case (1 u ctx i w)
  show ?case
  proof (cases "i < maxRetry")
    case False
    then show ?thesis
      by (subst retry_loop.simps) (simp add: world_of_def)
  next
    case True
    show ?thesis
    proof (cases "refreshCred u ctx w")
      case (Inl pw)
      with True refreshCred_calls_ge [of w u ctx] show ?thesis
        by (subst retry_loop.simps) (simp add: world_of_def split: prod.splits)
    next
      case (Inr t)
      obtain x u' w' where t: "t = (x, u', w')" by (cases t)
      from Inr t refreshCred_calls_ge [of w u ctx] have c: "calls w \<le> calls w'"
        by (simp add: world_of_def)
      show ?thesis
      proof (cases x)
        case None
        with True Inr t c show ?thesis
          by (subst retry_loop.simps) (simp add: world_of_def)
      next
        case (Some e)
        show ?thesis
        proof (cases "is_NotEnableError e")
          case True
          with \<open>i < maxRetry\<close> Inr t c Some show ?thesis
            by (subst retry_loop.simps) (simp add: world_of_def)
        next
          case False
          let ?w2 = "if i < maxRetry - 1 then time_Sleep (Second * of_nat i) w' else w'"
          have "calls ?w2 \<le> calls (world_of (retry_loop u' ctx (Suc i) ?w2))"
            using "1.IH" [of t x "(u', w')" e u' w'] \<open>i < maxRetry\<close> Inr t Some False
            by simp
          moreover have "calls ?w2 = calls w'" by (simp add: time_Sleep_def)
          moreover have "retry_loop u ctx i w = retry_loop u' ctx (Suc i) ?w2"
            using \<open>i < maxRetry\<close> Inr t Some False by (subst retry_loop.simps) simp
          ultimately show ?thesis using c by simp
        qed
      qed
    qed
  qed
qed

lemma retry_loop_first_attempt:
  assumes "getCredentials u = Some g" and "i < maxRetry"
  shows "calls w < calls (world_of (retry_loop u ctx i w))"
proof (cases "refreshCred u ctx w")
  case (Inl pw)
  with assms refreshCred_calls [OF assms(1), of ctx w] show ?thesis
    by (subst retry_loop.simps) (simp add: world_of_def split: prod.splits)
next
  case (Inr t)
  obtain x u' w' where t: "t = (x, u', w')" by (cases t)
  from Inr t refreshCred_calls [OF assms(1), of ctx w] have c: "calls w' = Suc (calls w)"
    by (simp add: world_of_def)
  let ?w2 = "if i < maxRetry - 1 then time_Sleep (Second * of_nat i) w' else w'"
  have "calls ?w2 = calls w'" by (simp add: time_Sleep_def)
  with c retry_loop_calls_ge [of ?w2 u' ctx "Suc i"]
  have "calls w < calls (world_of (retry_loop u' ctx (Suc i) ?w2))" by simp
  with assms(2) Inr t c show ?thesis
    by (subst retry_loop.simps) (auto simp: world_of_def split: option.splits if_splits)
qed

text \<open>
  C6, as the code has it.  \<^verbatim>\<open>NewUpdater\<close> sets the window of the background task to
  \<^verbatim>\<open>P + P/2\<close> (in int64 arithmetic; for \<open>0 \<le> P < 2^62\<close> ns that is the number \<open>P + P div 2\<close>).
  A tick whose check \<^verbatim>\<open>expired(expiryWindowForRefreshLoop)\<close> is false is a no-op: the
  Updater and the world are unchanged, nothing is fetched or logged.  A tick whose check
  is true makes its attempts: at least one fetch.  The check compares against the stored
  expiration, which already has the serving window subtracted: for a credential stored
  with raw expiration \<open>E\<close> under windows \<open>W \<ge> 0\<close> and \<open>L \<ge> 0\<close> (the loop's) the check is
  true exactly when \<open>E - W - L < now\<close>.
\<close>

theorem loop_window_check:
  "expiryWindowForRefreshLoop (NewUpdater getter opts) =
     RefreshPeriod opts + Duration_div (RefreshPeriod opts) 2 \<and>
   (0 \<le> sint (RefreshPeriod opts) \<and> sint (RefreshPeriod opts) < 2 ^ 62 \<longrightarrow>
      sint (expiryWindowForRefreshLoop (NewUpdater getter opts)) =
        sint (RefreshPeriod opts) + sint (RefreshPeriod opts) div 2) \<and>
   (\<not> expired u (expiryWindowForRefreshLoop u) w \<longrightarrow>
      refreshCredForLoop u ctx w = Inr ((), u, w)) \<and>
   (expired u (expiryWindowForRefreshLoop u) w \<and> getCredentials u = Some g \<longrightarrow>
      calls w < calls (world_of (refreshCredForLoop u ctx w))) \<and>
   (0 \<le> sint (expiryWindow u0) \<and> 0 \<le> sint (expiryWindowForRefreshLoop u0) \<and>
    setCred u0 c w0 = (u', w') \<and> heap w2 (Own (nxt w0)) = heap w' (Own (nxt w0)) \<longrightarrow>
      (expired u' (expiryWindowForRefreshLoop u') w2 \<longleftrightarrow>
         wall (Expiration c) - sint (expiryWindow u0) - sint (expiryWindowForRefreshLoop u0)
           < wall (now u' w2)))"
proof (intro conjI impI)
  show "expiryWindowForRefreshLoop (NewUpdater getter opts) =
     RefreshPeriod opts + Duration_div (RefreshPeriod opts) 2"
    by (simp add: NewUpdater_def)
next
  assume "0 \<le> sint (RefreshPeriod opts) \<and> sint (RefreshPeriod opts) < 2 ^ 62"
  then show "sint (expiryWindowForRefreshLoop (NewUpdater getter opts)) =
        sint (RefreshPeriod opts) + sint (RefreshPeriod opts) div 2"
    by (simp add: NewUpdater_def loop_window_sint)
next
  assume "\<not> expired u (expiryWindowForRefreshLoop u) w"
  then show "refreshCredForLoop u ctx w = Inr ((), u, w)"
    by (simp add: refreshCredForLoop_def)
next
  assume a: "expired u (expiryWindowForRefreshLoop u) w \<and> getCredentials u = Some g"
  let ?wl = "log_Debug u (StartRefresh (expiration u w)) w"
  have "calls ?wl < calls (world_of (retry_loop u ctx 0 ?wl))"
    using a by (intro retry_loop_first_attempt [of u g]) (simp_all add: maxRetry_def)
  with a show "calls w < calls (world_of (refreshCredForLoop u ctx w))"
    by (simp add: refreshCredForLoop_def Let_def log_Debug_def)
next
  assume a: "0 \<le> sint (expiryWindow u0) \<and> 0 \<le> sint (expiryWindowForRefreshLoop u0) \<and>
    setCred u0 c w0 = (u', w') \<and> heap w2 (Own (nxt w0)) = heap w' (Own (nxt w0))"
  then have s: "setCred u0 c w0 = (u', w')" and W: "0 \<le> sint (expiryWindow u0)" by simp_all
  have "cred u' = Some (Own (nxt w0))" using s by (rule setCred_cred)
  moreover have "Expiration (heap w2 (Own (nxt w0))) =
      \<lparr>wall = wall (Expiration c) - sint (expiryWindow u0), mono = None\<rparr>"
    using setCred_Expiration [OF W s] a by simp
  ultimately have x: "wall (expiration u' w2) = wall (Expiration c) - sint (expiryWindow u0)"
    by (simp add: expiration_def getCred_def Time_Round_0)
  have l: "expiryWindowForRefreshLoop u' = expiryWindowForRefreshLoop u0"
    using s by (auto simp: setCred_def Let_def)
  from a have "sint (- expiryWindowForRefreshLoop u0) = - sint (expiryWindowForRefreshLoop u0)"
    by (intro sint_nonneg_neg) simp
  with x l show "expired u' (expiryWindowForRefreshLoop u') w2 \<longleftrightarrow>
         wall (Expiration c) - sint (expiryWindow u0) - sint (expiryWindowForRefreshLoop u0)
           < wall (now u' w2)"
    by (simp add: expired_iff)
qed

text \<open>
  With a refresh period of 100 s the window is 150 s.  The stored example credential
  (raw expiration 60 s ahead, serving window 30 s): 121 s before the example instant the
  tick is a no-op; 100 s before it the tick fetches.
\<close>

theorem loop_window_check_witness:
  "sint (expiryWindowForRefreshLoop (NewUpdater (Some fetch_ok) ex_opts)) = 150000000000 \<and>
   refreshCredForLoop (fst ex_stored) Background
       (at_wall 63899999879000000000 (snd ex_stored)) =
     Inr ((), fst ex_stored, at_wall 63899999879000000000 (snd ex_stored)) \<and>
   calls ex_early < calls (world_of (refreshCredForLoop (fst ex_stored) Background ex_early)) \<and>
   expired (fst ex_stored) (expiryWindowForRefreshLoop (fst ex_stored)) ex_early"
proof -
  have p: "0 \<le> sint (RefreshPeriod ex_opts) \<and> sint (RefreshPeriod ex_opts) < 2 ^ 62"
    and v: "sint (RefreshPeriod ex_opts) + sint (RefreshPeriod ex_opts) div 2 = 150000000000"
    by (simp_all add: ex_defs)
  have n: "\<not> expired (fst ex_stored) (expiryWindowForRefreshLoop (fst ex_stored))
      (at_wall 63899999879000000000 (snd ex_stored))"
    and g: "getCredentials (fst ex_stored) = Some fetch_ok"
    and W: "0 \<le> sint (expiryWindow ex_upd)" "0 \<le> sint (expiryWindowForRefreshLoop ex_upd)"
    and s: "setCred ex_upd ex_cred ex_world = (fst ex_stored, snd ex_stored)"
    and h: "heap ex_early (Own (nxt ex_world)) = heap (snd ex_stored) (Own (nxt ex_world))"
    and t: "wall (Expiration ex_cred) - sint (expiryWindow ex_upd)
        - sint (expiryWindowForRefreshLoop ex_upd) < wall (now (fst ex_stored) ex_early)"
    by (simp_all add: ex_defs run_defs Duration_div_def ex_early_def)
  note t1 = loop_window_check [where getter = "Some fetch_ok" and opts = ex_opts
      and u = "fst ex_stored" and w = "at_wall 63899999879000000000 (snd ex_stored)"
      and ctx = Background and ?u0.0 = ex_upd and c = ex_cred and ?w0.0 = ex_world
      and u' = "fst ex_stored" and w' = "snd ex_stored" and ?w2.0 = ex_early]
  note t2 = loop_window_check [where opts = ex_opts
      and u = "fst ex_stored" and w = ex_early and g = fetch_ok
      and ctx = Background and ?u0.0 = ex_upd and c = ex_cred and ?w0.0 = ex_world
      and u' = "fst ex_stored" and w' = "snd ex_stored" and ?w2.0 = ex_early]
  have e: "expired (fst ex_stored) (expiryWindowForRefreshLoop (fst ex_stored)) ex_early"
    using t1 [THEN conjunct2, THEN conjunct2, THEN conjunct2, THEN conjunct2] W s h t
    by simp
  have a: "sint (expiryWindowForRefreshLoop (NewUpdater (Some fetch_ok) ex_opts)) =
      150000000000"
    using t1 [THEN conjunct2, THEN conjunct1] p v by simp
  have b: "refreshCredForLoop (fst ex_stored) Background
       (at_wall 63899999879000000000 (snd ex_stored)) =
     Inr ((), fst ex_stored, at_wall 63899999879000000000 (snd ex_stored))"
    using t1 [THEN conjunct2, THEN conjunct2, THEN conjunct1] n by simp
  have c: "calls ex_early <
      calls (world_of (refreshCredForLoop (fst ex_stored) Background ex_early))"
    using t2 [THEN conjunct2, THEN conjunct2, THEN conjunct2, THEN conjunct1] e g by simp
  from a b c e show ?thesis by simp
qed

text \<open>
  C6 as stated fails when the serving window is positive.  100 s before the example
  instant the cached credential, whose raw expiration is 60 s after it, is not within
  the loop window (150 s) of its raw expiration: the current time is before the raw
  expiration minus the window.  The tick fetches nevertheless.
\<close>

theorem loop_window_raw_expiration_counterexample:
  "wall (now (fst ex_stored) ex_early)
     < wall (Expiration ex_cred) - sint (expiryWindowForRefreshLoop (fst ex_stored)) \<and>
   calls (world_of (refreshCredForLoop (fst ex_stored) Background ex_early)) =
     Suc (calls ex_early)"
  by (simp add: ex_defs run_defs Duration_div_def ex_early_def refreshCredForLoop_def
      retry_loop.simps [of _ _ 0] maxRetry_def)

subsection \<open>Cancellation of the background task\<close>

text \<open>
  Blocked in its \<^verbatim>\<open>select\<close>, the task leaves as soon as the context is cancelled: when
  the cancellation comes before the next tick, the loop exits at that instant and
  nothing is fetched.
\<close>

lemma select_loop_cancelled_waiting:
  assumes "d < T" and "wall (clock w) < T"
  shows "select_loop pick u (CancelAt d) (T # ts) w = Inr (Exited, u, wait_until d w)"
  using assms by (simp add: wait_until_def min_def)

text \<open>
  C8 fails in the retry backoff, which is a plain \<^verbatim>\<open>time.Sleep\<close>.  The failing Updater
  starts its task at the late example instant (31 s) with a fetch capability that fails
  transiently; the context is cancelled half a second later, during the one-second sleep
  after the second attempt.  The cycle sleeps on and makes its third, fourth and fifth
  attempts with the cancelled context, the last one 5.5 s after the cancellation; only
  then does the task reach its \<^verbatim>\<open>select\<close> and exit.
\<close>

theorem backoff_ignores_cancellation:
  "filter is_EvFetch (trace (world_of
     (startRefreshLoop (\<lambda>n. True) ex_failing (CancelAt 63900000031500000000)
        [63900000131000000000] ex_late))) =
     [EvFetch 0 False, EvFetch 1 False, EvFetch 2 True, EvFetch 3 True, EvFetch 4 True] \<and>
   sleeps_of (trace (world_of
     (startRefreshLoop (\<lambda>n. True) ex_failing (CancelAt 63900000031500000000)
        [63900000131000000000] ex_late))) =
     [0, 1000000000, 2000000000, 3000000000] \<and>
   returned (startRefreshLoop (\<lambda>n. True) ex_failing (CancelAt 63900000031500000000)
        [63900000131000000000] ex_late) = Some Exited \<and>
   wall (clock (world_of
     (startRefreshLoop (\<lambda>n. True) ex_failing (CancelAt 63900000031500000000)
        [63900000131000000000] ex_late))) = 63900000037000000000"
  by (simp add: ex_defs ex_failing_def fetch_transient_def run_defs returned_def
      Duration_div_def startRefreshLoop_def refreshCredForLoop_def
      retry_loop.simps [of _ _ 0] retry_loop.simps [of _ _ "Suc 0"]
      retry_loop.simps [of _ _ "Suc (Suc 0)"] retry_loop.simps [of _ _ "Suc (Suc (Suc 0))"]
      retry_loop.simps [of _ _ "Suc (Suc (Suc (Suc 0)))"]
      retry_loop.simps [of _ _ "Suc (Suc (Suc (Suc (Suc 0))))"]
      maxRetry_def time_Sleep_def wait_until_def)

end
